theory Spec2Isabelle
  imports Complex_Main "HOL-Library.Log_Nat"
begin

section \<open>Python values used by the program\<close>

text \<open>
  Exceptions are values. \<open>StopIteration\<close> is the iterator protocol's exhaustion
  signal, \<open>ZeroDivisionError\<close> is raised by \<open>//\<close> with a zero divisor,
  \<open>RuntimeError\<close> is what \<open>Tensor.view\<close> raises for a shape that does not fit.
\<close>

datatype py_error = StopIteration | ZeroDivisionError | RuntimeError

text \<open>
  A slice bound of Python: a negative bound counts from the end, and every bound is
  clamped to the range of the sequence.
\<close>

definition slice_bound :: "int \<Rightarrow> int \<Rightarrow> nat" where
  "slice_bound n k = nat (if k < 0 then max (k + n) 0 else min k n)"

text \<open>\<open>xs[a:b]\<close> and \<open>xs[:b]\<close>.\<close>

definition py_slice :: "'a list \<Rightarrow> int \<Rightarrow> int \<Rightarrow> 'a list" where
  "py_slice xs a b =
     (let n = int (length xs); lo = slice_bound n a; hi = slice_bound n b
      in take (hi - lo) (drop lo xs))"

definition py_prefix :: "'a list \<Rightarrow> int \<Rightarrow> 'a list" where
  "py_prefix xs b = take (slice_bound (int (length xs)) b) xs"

text \<open>\<open>int(x)\<close> on a float: truncation towards zero.\<close>

definition py_int :: "real \<Rightarrow> int" where
  "py_int x = (if 0 \<le> x then \<lfloor>x\<rfloor> else \<lceil>x\<rceil>)"

section \<open>Tensors\<close>

text \<open>
  A one-dimensional tensor is the list of its elements; a two-dimensional tensor is the
  list of its rows, so that \<open>shape[0]\<close> is the length of the list and \<open>m[i:j]\<close>
  is a slice of rows.

  \<open>x.view(r, -1)\<close> on a one-dimensional tensor of \<open>n\<close> elements: the second
  dimension is inferred as \<open>n / r\<close>. The call raises when \<open>r\<close> is negative, when
  \<open>r\<close> is zero, and when \<open>r\<close> does not divide \<open>n\<close>. For \<open>n = 0\<close> and
  \<open>r > 0\<close> the result has shape \<open>(r, 0)\<close>.
\<close>

definition view2 :: "'a list \<Rightarrow> int \<Rightarrow> py_error + 'a list list" where
  "view2 xs r =
     (if r \<le> 0 then Inl RuntimeError
      else if int (length xs) mod r \<noteq> 0 then Inl RuntimeError
      else let c = length xs div nat r
           in Inr (map (\<lambda>j. take c (drop (j * c) xs)) [0..<nat r]))"

text \<open>\<open>m.t().contiguous()\<close>: row \<open>i\<close> of the result is column \<open>i\<close> of \<open>m\<close>.\<close>

definition t :: "'a list list \<Rightarrow> 'a list list" where
  "t m = (case m of [] \<Rightarrow> []
          | r # _ \<Rightarrow> map (\<lambda>i. map (\<lambda>row. row ! i) m) [0..<length r])"

text \<open>The target of a batch: \<open>y.view(-1)\<close> is the row-major flattening.\<close>

datatype 'a target = Flat "'a list" | Block "'a list list"

section \<open>The sequence iterator (src/rnn/rnn\_classify.py)\<close>

text \<open>
  The two draws one call of \<open>get_sequence_length\<close> may make:
  \<open>np.random.random()\<close> and \<open>np.random.normal(loc, scale)\<close>.
\<close>

record rnd =
  np_random :: real
  np_normal :: "real \<Rightarrow> real \<Rightarrow> real"

text \<open>
  The fields of \<open>SequenceIterator\<close>. \<open>random_length\<close> holds a Python object that
  the code compares with \<open>None\<close>: \<open>None\<close> here is Python's \<open>None\<close>,
  \<open>Some b\<close> the boolean \<open>b\<close>.
\<close>

record 'a sequence_iterator =
  bptt :: int
  split_size :: int
  random_length :: "bool option"
  flatten_target :: bool
  batches :: "'a list list"
  curr_iter :: int
  curr_line :: int
  total_lines :: int
  total_iters :: int

text \<open>Lines 290 to 292 of \<open>__init__\<close>: truncate, view as lanes, transpose.\<close>

definition make_batches :: "'a list \<Rightarrow> int \<Rightarrow> py_error + 'a list list" where
  "make_batches seq ssize =
     (if ssize = 0 then Inl ZeroDivisionError
      else let n_batches = int (length seq) div ssize;
               truncated = py_prefix seq (n_batches * ssize)
           in case view2 truncated ssize of
                Inl e \<Rightarrow> Inl e
              | Inr v \<Rightarrow> Inr (t v))"

definition SequenceIterator_init ::
  "'a list \<Rightarrow> int \<Rightarrow> int \<Rightarrow> bool option \<Rightarrow> bool \<Rightarrow> py_error + 'a sequence_iterator" where
  "SequenceIterator_init seq b ssize rl ft =
     (case make_batches seq ssize of
        Inl e \<Rightarrow> Inl e
      | Inr bs \<Rightarrow>
          if b = 0 then Inl ZeroDivisionError
          else Inr \<lparr> bptt = b, split_size = ssize, random_length = rl,
                     flatten_target = ft, batches = bs, curr_iter = 0, curr_line = 0,
                     total_lines = int (length bs),
                     total_iters = int (length bs) div b - 1 \<rparr>)"

definition completed :: "'a sequence_iterator \<Rightarrow> bool" where
  "completed self =
     (if curr_line self \<ge> total_lines self - 1 then True
      else if curr_iter self \<ge> total_iters self then True
      else False)"

definition SequenceIterator_iter :: "'a sequence_iterator \<Rightarrow> 'a sequence_iterator" where
  "SequenceIterator_iter self = self \<lparr> curr_line := 0, curr_iter := 0 \<rparr>"

definition get_sequence_length :: "rnd \<Rightarrow> 'a sequence_iterator \<Rightarrow> int" where
  "get_sequence_length r self =
     (if random_length self = None then bptt self
      else let b = (if np_random r \<ge> 0.95 then real_of_int (bptt self) / 2
                    else real_of_int (bptt self))
           in max 5 (py_int (np_normal r b 5)))"

definition get_batch :: "'a sequence_iterator \<Rightarrow> int \<Rightarrow> 'a list list \<times> 'a target" where
  "get_batch self seq_len0 =
     (let i = curr_line self; source = batches self;
          seq_len = min seq_len0 (total_lines self - 1 - i);
          X = py_slice source i (i + seq_len);
          y = py_slice source (i + 1) ((i + 1) + seq_len)
      in (X, if flatten_target self then Flat (concat y) else Block y))"

definition SequenceIterator_next ::
  "rnd \<Rightarrow> 'a sequence_iterator \<Rightarrow> py_error + (('a list list \<times> 'a target) \<times> 'a sequence_iterator)" where
  "SequenceIterator_next r self =
     (if completed self then Inl StopIteration
      else let seq_len = get_sequence_length r self;
               batch = get_batch self seq_len
           in Inr (batch, self \<lparr> curr_line := curr_line self + seq_len,
                                  curr_iter := curr_iter self + 1 \<rparr>))"

text \<open>
  The iterators a program can hold: built by the constructor, then restarted by
  \<open>__iter__\<close> or advanced by \<open>next\<close>, with any draws.
\<close>

inductive reachable :: "'a sequence_iterator \<Rightarrow> bool" where
  reach_init: "SequenceIterator_init seq b ssize rl ft = Inr it \<Longrightarrow> reachable it"
| reach_iter: "reachable it \<Longrightarrow> reachable (SequenceIterator_iter it)"
| reach_next: "reachable it \<Longrightarrow> SequenceIterator_next r it = Inr (bt, it') \<Longrightarrow> reachable it'"

section \<open>Double precision numbers\<close>

text \<open>
  A Python float is an IEEE double. \<open>Some q\<close> is the finite double of value \<open>q\<close>
  (the two zeros are one value, as Python's \<open>==\<close> has it); \<open>None\<close> stands for the
  doubles that are not finite (the infinities and nan). The program only adds,
  subtracts and multiplies doubles, and these operations give a non-finite result for
  every non-finite operand. An operand \<open>Some q\<close> is taken as given: the numbers
  the program writes (0.0, 1, 0.98 after rounding) and every result of \<open>fl\<close> are
  values a double holds.

  \<open>ilog2 x\<close> is the exponent of \<open>x \<noteq> 0\<close>, the \<open>e\<close> with
  \<open>2^e \<le> |x| < 2^(e+1)\<close>. \<open>fl\<close> rounds to the nearest double, ties to even: 53
  significant bits, exponents from \<open>-1022\<close> (below it the spacing stays
  \<open>2^-1074\<close>), and a result that rounds to \<open>2^1024\<close> or beyond is infinite.
\<close>

type_synonym double = "rat option"

definition pow2 :: "int \<Rightarrow> rat" where
  "pow2 k = (if 0 \<le> k then 2 ^ nat k else 1 / 2 ^ nat (- k))"

definition ilog2 :: "rat \<Rightarrow> int" where
  "ilog2 x =
     (case quotient_of \<bar>x\<bar> of (p, q) \<Rightarrow>
        let d = bitlen p - bitlen q
        in if pow2 d \<le> \<bar>x\<bar> then d else d - 1)"

definition round_half_even :: "rat \<Rightarrow> int" where
  "round_half_even q =
     (let f = \<lfloor>q\<rfloor>; d = q - of_int f
      in if d < 1 / 2 then f
         else if 1 / 2 < d then f + 1
         else if even f then f else f + 1)"

definition fl :: "rat \<Rightarrow> double" where
  "fl x =
     (if x = 0 then Some 0
      else let e = max (ilog2 x) (- 1022);
               ulp = pow2 (e - 52);
               r = of_int (round_half_even (x / ulp)) * ulp
           in if pow2 1024 \<le> \<bar>r\<bar> then None else Some r)"

definition fadd :: "double \<Rightarrow> double \<Rightarrow> double" where
  "fadd a b = (case (a, b) of (Some x, Some y) \<Rightarrow> fl (x + y) | _ \<Rightarrow> None)"

definition fsub :: "double \<Rightarrow> double \<Rightarrow> double" where
  "fsub a b = (case (a, b) of (Some x, Some y) \<Rightarrow> fl (x - y) | _ \<Rightarrow> None)"

definition fmul :: "double \<Rightarrow> double \<Rightarrow> double" where
  "fmul a b = (case (a, b) of (Some x, Some y) \<Rightarrow> fl (x * y) | _ \<Rightarrow> None)"

section \<open>The training loop (src/core/loop.py)\<close>

subsection \<open>Stepper\<close>

text \<open>
  The stepper holds the model, the optimizer and the schedule. What these objects do is
  outside the repository, so their operations are parameters. The model is a module
  with a state of its own (parameters, buffers, recurrent state, the random state its
  layers draw from), and \<open>step\<close> calls it as it is, without switching it to
  evaluation mode: a call returns the output and the state the module is left in. The
  four mutating calls of a training step may change anything the stepper holds, and
  \<open>last_epoch\<close> reads the schedule's counter. \<open>loss.item()\<close> is a Python float;
  \<open>loss_call\<close> gives that number for the loss tensor.
\<close>

record ('m, 'o, 's) Stepper =
  model :: 'm
  optimizer :: 'o
  schedule :: 's

record ('m, 'o, 's, 'x, 'y, 't) torch =
  model_call :: "'m \<Rightarrow> 'x \<Rightarrow> 't \<times> 'm"
  loss_call :: "'t \<Rightarrow> 'y \<Rightarrow> double"
  zero_grad :: "('m, 'o, 's) Stepper \<Rightarrow> ('m, 'o, 's) Stepper"
  backward :: "'x \<Rightarrow> 'y \<Rightarrow> ('m, 'o, 's) Stepper \<Rightarrow> ('m, 'o, 's) Stepper"
  optimizer_step :: "('m, 'o, 's) Stepper \<Rightarrow> ('m, 'o, 's) Stepper"
  schedule_step :: "('m, 'o, 's) Stepper \<Rightarrow> ('m, 'o, 's) Stepper"
  last_epoch :: "'s \<Rightarrow> int"

definition Stepper_init ::
  "('m, 'o, 's, 'x, 'y, 't) torch \<Rightarrow> 'm \<Rightarrow> 'o \<Rightarrow> 's \<Rightarrow> ('m, 'o, 's) Stepper" where
  "Stepper_init T m opt sch =
     (let self = \<lparr> model = m, optimizer = opt, schedule = sch \<rparr>
      in if last_epoch T sch = - 1 then schedule_step T self else self)"


subsection \<open>Phase and Loop\<close>

text \<open>A data source is the finite sequence of batches one traversal of it yields.\<close>

record ('x, 'y) Phase =
  name :: string
  dataset :: "('x \<times> 'y) list"
  batch_num :: int
  avg_loss :: double

definition Phase_init :: "string \<Rightarrow> ('x \<times> 'y) list \<Rightarrow> ('x, 'y) Phase" where
  "Phase_init n d = \<lparr> name = n, dataset = d, batch_num = 0, avg_loss = Some 0 \<rparr>"

text \<open>
  The loop calls \<open>self.stepper.step(x, y, is_training)\<close> on whatever object it was
  given, so the stepper is a state of any type and its \<open>step\<close> method is an argument
  of the functions below.
\<close>

record 'st Loop =
  stepper :: 'st
  alpha :: double
  stop :: bool

text \<open>
  \<open>alpha\<close> is an optional argument: \<open>None\<close> takes the default, the double that
  the literal \<open>0.98\<close> denotes.
\<close>

definition Loop_init :: "'st \<Rightarrow> double option \<Rightarrow> 'st Loop" where
  "Loop_init stp a =
     \<lparr> stepper = stp, alpha = (case a of None \<Rightarrow> fl (98 / 100) | Some v \<Rightarrow> v),
       stop = False \<rparr>"

subsection \<open>CallbackGroup\<close>

datatype hook =
  OnTrainingStart | OnEpochStart | OnBatchStart | OnBatchEnd | OnEpochEnd | OnTrainingEnd

text \<open>
  An observer with a state of its own: given the hook and its arguments (the epoch and
  the active phase, where there is one), a handler returns the observer's new state and
  its stop signal; \<open>None\<close> says that the observer does not implement the hook.
\<close>

type_synonym ('x, 'y, 'c) callback =
  "hook \<Rightarrow> (nat \<times> ('x, 'y) Phase) option \<Rightarrow> 'c \<Rightarrow> ('c \<times> bool) option"

text \<open>
  Modelled from the spec: \<open>CallbackGroup\<close> (module \<open>callbacks\<close>, imported by
  loop.py) is not among the sources. It dispatches an event to every registered
  observer in registration order, skips an observer that does not implement the hook,
  and reports whether any handler returned a stop signal.
\<close>

fun dispatch ::
  "hook \<Rightarrow> (nat \<times> ('x, 'y) Phase) option \<Rightarrow> (('x, 'y, 'c) callback \<times> 'c) list
     \<Rightarrow> (('x, 'y, 'c) callback \<times> 'c) list \<times> bool" where
  "dispatch h a [] = ([], False)"
| "dispatch h a ((f, c) # rest) =
     (case f h a c of
        None \<Rightarrow> (case dispatch h a rest of (rest', s) \<Rightarrow> ((f, c) # rest', s))
      | Some (c', b) \<Rightarrow>
          (case dispatch h a rest of (rest', s) \<Rightarrow> ((f, c') # rest', b \<or> s)))"

text \<open>
  What a run works on: the loop object, the callback group bound to it, and the list of
  the events fired so far, each with the epoch and the name of the phase it was fired
  for.
\<close>

record ('st, 'x, 'y, 'c) run_state =
  self :: "'st Loop"
  cb :: "(('x, 'y, 'c) callback \<times> 'c) list"
  fired :: "(hook \<times> (nat \<times> string) option) list"

text \<open>
  Modelled from the spec: firing an event through the group. If any handler returned a
  stop signal, the group sets the stop flag of the loop it is bound to.
\<close>

definition cb_fire ::
  "hook \<Rightarrow> (nat \<times> ('x, 'y) Phase) option \<Rightarrow> ('st, 'x, 'y, 'c) run_state
     \<Rightarrow> ('st, 'x, 'y, 'c) run_state" where
  "cb_fire h a s =
     (case dispatch h a (cb s) of (obs, sig) \<Rightarrow>
        s \<lparr> self := (if sig then (self s) \<lparr> stop := True \<rparr> else self s),
            cb := obs,
            fired := fired s @ [(h, map_option (\<lambda>(e, p). (e, name p)) a)] \<rparr>)"

subsection \<open>Loop.run\<close>

text \<open>The loop over the batches of one phase (lines 45 to 50).\<close>

fun batch_loop ::
  "('x \<Rightarrow> 'y \<Rightarrow> bool \<Rightarrow> 'st \<Rightarrow> double \<times> 'st) \<Rightarrow> double \<Rightarrow> nat \<Rightarrow> bool \<Rightarrow> ('x \<times> 'y) list
     \<Rightarrow> ('x, 'y) Phase \<Rightarrow> ('st, 'x, 'y, 'c) run_state
     \<Rightarrow> ('x, 'y) Phase \<times> ('st, 'x, 'y, 'c) run_state" where
  "batch_loop step a epoch is_training [] phase s = (phase, s)"
| "batch_loop step a epoch is_training ((x, y) # rest) phase s =
     (let phase1 = phase \<lparr> batch_num := batch_num phase + 1 \<rparr>;
          s1 = cb_fire OnBatchStart (Some (epoch, phase1)) s
      in case step x y is_training (stepper (self s1)) of (loss, stp) \<Rightarrow>
           (let s2 = s1 \<lparr> self := (self s1) \<lparr> stepper := stp \<rparr> \<rparr>;
                phase2 = phase1 \<lparr> avg_loss :=
                           fadd (fmul (avg_loss phase1) a) (fmul loss (fsub (Some 1) a)) \<rparr>;
                s3 = cb_fire OnBatchEnd (Some (epoch, phase2)) s2
            in batch_loop step a epoch is_training rest phase2 s3))"

text \<open>The loop over the phases of one epoch (lines 42 to 51).\<close>

fun phase_loop ::
  "('x \<Rightarrow> 'y \<Rightarrow> bool \<Rightarrow> 'st \<Rightarrow> double \<times> 'st) \<Rightarrow> double \<Rightarrow> nat \<Rightarrow> ('x, 'y) Phase list
     \<Rightarrow> ('st, 'x, 'y, 'c) run_state
     \<Rightarrow> ('x, 'y) Phase list \<times> ('st, 'x, 'y, 'c) run_state" where
  "phase_loop step a epoch [] s = ([], s)"
| "phase_loop step a epoch (phase # rest) s =
     (let s1 = cb_fire OnEpochStart (Some (epoch, phase)) s;
          is_training = (name phase = ''train'')
      in case batch_loop step a epoch is_training (dataset phase) phase s1 of (phase', s2) \<Rightarrow>
           (let s3 = cb_fire OnEpochEnd (Some (epoch, phase')) s2
            in case phase_loop step a epoch rest s3 of (rest', s4) \<Rightarrow> (phase' # rest', s4)))"

text \<open>The loop over the epochs (lines 39 to 51), with its \<open>break\<close>.\<close>

fun epoch_loop ::
  "('x \<Rightarrow> 'y \<Rightarrow> bool \<Rightarrow> 'st \<Rightarrow> double \<times> 'st) \<Rightarrow> double \<Rightarrow> nat list \<Rightarrow> ('x, 'y) Phase list
     \<Rightarrow> ('st, 'x, 'y, 'c) run_state
     \<Rightarrow> ('x, 'y) Phase list \<times> ('st, 'x, 'y, 'c) run_state" where
  "epoch_loop step a [] phases s = (phases, s)"
| "epoch_loop step a (epoch # rest) phases s =
     (if stop (self s) then (phases, s)
      else case phase_loop step a epoch phases s of (phases', s') \<Rightarrow>
             epoch_loop step a rest phases' s')"

text \<open>
  \<open>Loop.run\<close>. Python returns nothing; the model returns the phases and the state
  the run ends with, so that they can be observed.
\<close>

definition Loop_run ::
  "('x \<Rightarrow> 'y \<Rightarrow> bool \<Rightarrow> 'st \<Rightarrow> double \<times> 'st) \<Rightarrow> 'st Loop \<Rightarrow> ('x \<times> 'y) list \<Rightarrow> ('x \<times> 'y) list
     \<Rightarrow> int \<Rightarrow> (('x, 'y, 'c) callback \<times> 'c) list
     \<Rightarrow> ('x, 'y) Phase list \<times> ('st, 'x, 'y, 'c) run_state" where
  "Loop_run step l train_data valid_data epochs callbacks =
     (let phases = [Phase_init ''train'' train_data, Phase_init ''valid'' valid_data];
          s0 = cb_fire OnTrainingStart None \<lparr> self = l, cb = callbacks, fired = [] \<rparr>;
          a = alpha (self s0)
      in case epoch_loop step a [0..<nat epochs] phases s0 of (phases', s1) \<Rightarrow>
           (phases', cb_fire OnTrainingEnd None s1))"

text \<open>The events one phase of an epoch fires when it runs to completion.\<close>

definition phase_events :: "nat \<Rightarrow> string \<Rightarrow> nat \<Rightarrow> (hook \<times> (nat \<times> string) option) list" where
  "phase_events epoch n k =
     (OnEpochStart, Some (epoch, n))
     # concat (replicate k [(OnBatchStart, Some (epoch, n)), (OnBatchEnd, Some (epoch, n))])
     @ [(OnEpochEnd, Some (epoch, n))]"

subsection \<open>The running loss as the spec states it\<close>

text \<open>
  The update \<open>running_loss * alpha + loss * (1 - alpha)\<close> of spec section 4.1, in
  doubles; the losses the stepper returns over the batches of a data source, with the
  stepper it is left as; and what one epoch makes of the running losses of the two
  phases and of the stepper: the training phase first, then the validation phase.
\<close>

definition ema :: "double \<Rightarrow> double \<Rightarrow> double \<Rightarrow> double" where
  "ema a r l = fadd (fmul r a) (fmul l (fsub (Some 1) a))"

fun step_losses ::
  "('x \<Rightarrow> 'y \<Rightarrow> bool \<Rightarrow> 'st \<Rightarrow> double \<times> 'st) \<Rightarrow> bool \<Rightarrow> ('x \<times> 'y) list \<Rightarrow> 'st
     \<Rightarrow> double list \<times> 'st" where
  "step_losses step train [] st = ([], st)"
| "step_losses step train ((x, y) # rest) st =
     (case step x y train st of (l, st1) \<Rightarrow>
        (case step_losses step train rest st1 of (ls, st2) \<Rightarrow> (l # ls, st2)))"

definition epoch_ref ::
  "('x \<Rightarrow> 'y \<Rightarrow> bool \<Rightarrow> 'st \<Rightarrow> double \<times> 'st) \<Rightarrow> double \<Rightarrow> ('x \<times> 'y) list
     \<Rightarrow> ('x \<times> 'y) list \<Rightarrow> double \<times> double \<times> 'st \<Rightarrow> double \<times> double \<times> 'st" where
  "epoch_ref step a train_data valid_data = (\<lambda>(rt, rv, st).
     (case step_losses step True train_data st of (lt, st1) \<Rightarrow>
        (case step_losses step False valid_data st1 of (lv, st2) \<Rightarrow>
           (foldl (ema a) rt lt, foldl (ema a) rv lv, st2))))"

text \<open>
  The running loss of a phase after \<open>k\<close> batches of loss 1.0, from 0.0, with the
  default \<open>alpha\<close>.
\<close>

definition unit_loss_run :: "nat \<Rightarrow> double" where
  "unit_loss_run k = foldl (ema (fl (98 / 100))) (Some 0) (replicate k (Some 1))"

text \<open>Observers none of whose handlers ever returns a stop signal.\<close>

definition never_stops :: "(('x, 'y, 'c) callback \<times> 'c) list \<Rightarrow> bool" where
  "never_stops obs =
     (\<forall>(f, c) \<in> set obs. \<forall>h a c0. case f h a c0 of None \<Rightarrow> True | Some (c1, b) \<Rightarrow> \<not> b)"


section \<open>Example data\<close>

text \<open>
  The sequence 1 to 16 in two lanes with base window 1, as the constructor builds it,
  and the same iterator after a first batch of six rows.
\<close>

definition example_seq :: "int list" where
  "example_seq = [1, 2, 3, 4, 5, 6, 7, 8, 9, 10, 11, 12, 13, 14, 15, 16]"

definition example_it0 :: "int sequence_iterator" where
  "example_it0 =
     \<lparr> bptt = 1, split_size = 2, random_length = Some True, flatten_target = True,
       batches = [[1, 9], [2, 10], [3, 11], [4, 12], [5, 13], [6, 14], [7, 15], [8, 16]],
       curr_iter = 0, curr_line = 0, total_lines = 8, total_iters = 7 \<rparr>"

definition example_it1 :: "int sequence_iterator" where
  "example_it1 = example_it0 \<lparr> curr_iter := 1, curr_line := 6 \<rparr>"

text \<open>
  Two pairs of draws. With the first, \<open>np.random.normal\<close> returns 6.0 and the window
  is not halved. With the second, the window is halved to 0.5 and the sample is
  \<open>loc + scale = 5.5\<close>, which \<open>int\<close> truncates to 5.
\<close>

definition draw_six :: rnd where
  "draw_six = \<lparr> np_random = 0, np_normal = (\<lambda>loc scale. 6) \<rparr>"

definition draw_halved :: rnd where
  "draw_halved = \<lparr> np_random = 99 / 100, np_normal = (\<lambda>loc scale. loc + scale) \<rparr>"


text \<open>
  A stepper that reports the loss 1 for every batch and counts its training steps, a
  loop around it with \<open>alpha = 1.0\<close>, an
  observer that handles every hook fired with a phase and returns a stop signal at the
  end of each training batch of epoch \<open>k\<close>, and a run of three epochs over one
  training batch and one validation batch with that observer set for epoch 1: the state
  at the top of epoch 1 and the state after the two phases of epoch 1.
\<close>

definition demo_step :: "nat \<Rightarrow> nat \<Rightarrow> bool \<Rightarrow> nat \<Rightarrow> double \<times> nat" where
  "demo_step x y train n = (Some 1, if train then n + 1 else n)"

definition stop_at :: "nat \<Rightarrow> (nat, nat, unit) callback" where
  "stop_at k h a c =
     (case a of None \<Rightarrow> None
      | Some (e, p) \<Rightarrow> Some (c, h = OnBatchEnd \<and> e = k \<and> name p = ''train''))"

text \<open>An observer that counts the events it is given and never asks for a stop.\<close>

definition watcher :: "(nat, nat, nat) callback" where
  "watcher h a c = Some (c + 1, False)"



definition demo_loop :: "nat Loop" where
  "demo_loop = Loop_init 0 (Some (Some 1))"

definition demo_data :: "(nat \<times> nat) list" where
  "demo_data = [(0, 0)]"

definition demo_before ::
  "(nat, nat) Phase list \<times> (nat, nat, nat, unit) run_state" where
  "demo_before =
     epoch_loop demo_step (alpha demo_loop) [0..<1]
       [Phase_init ''train'' demo_data, Phase_init ''valid'' demo_data]
       (cb_fire OnTrainingStart None
          \<lparr> self = demo_loop, cb = [(stop_at 1, ())], fired = [] \<rparr>)"

definition demo_after ::
  "(nat, nat) Phase list \<times> (nat, nat, nat, unit) run_state" where
  "demo_after =
     phase_loop demo_step (alpha demo_loop) 1 (fst demo_before) (snd demo_before)"


section \<open>Facts about the sequence iterator\<close>

subsection \<open>Slices, the invariant of reachable iterators\<close>

lemma py_slice_window:
  assumes "0 \<le> i" "0 \<le> w" "i + w \<le> int (length xs)"
  shows "py_slice xs i (i + w) = take (nat w) (drop (nat i) xs)"
proof -
  have "nat (i + w) - nat i = nat w" using assms by linarith
  with assms show ?thesis by (simp add: py_slice_def slice_bound_def Let_def)
qed

lemma completed_iff:
  "completed it \<longleftrightarrow> (curr_line it \<ge> total_lines it - 1 \<or> curr_iter it \<ge> total_iters it)"
  by (simp add: completed_def)

lemma init_fields:
  assumes "SequenceIterator_init seq b ssize rl ft = Inr it"
  shows "total_lines it = int (length (batches it)) \<and> bptt it \<noteq> 0
       \<and> total_iters it = total_lines it div bptt it - 1
       \<and> curr_line it = 0 \<and> curr_iter it = 0"
  using assms by (auto simp: SequenceIterator_init_def split: sum.splits if_splits)

lemma bptt_pos:
  assumes "(0::int) \<le> T" "0 \<le> k" "k < T div b - 1"
  shows "0 < b"
proof (rule ccontr)
  assume "\<not> 0 < b"
  then have "b \<le> 0" by simp
  then have "T div b \<le> 0" using assms(1)
    by (cases "b = 0") (simp_all add: div_nonneg_neg_le0)
  with assms show False by simp
qed

lemma seq_len_pos:
  assumes "total_lines it = int (length (batches it))" "total_iters it = total_lines it div bptt it - 1"
    "0 \<le> curr_iter it" "\<not> completed it"
  shows "1 \<le> get_sequence_length r it"
proof (cases "random_length it = None")
  case True
  from assms have "curr_iter it < total_lines it div bptt it - 1" by (simp add: completed_iff)
  with assms have "0 < bptt it" using bptt_pos[of "total_lines it" "curr_iter it" "bptt it"] by simp
  with True show ?thesis by (simp add: get_sequence_length_def)
next
  case False
  then show ?thesis
    by (cases "random_length it") (simp_all add: get_sequence_length_def Let_def)
qed

lemma seq_len_random:
  "random_length it \<noteq> None \<Longrightarrow> 5 \<le> get_sequence_length r it"
  by (cases "random_length it") (simp_all add: get_sequence_length_def Let_def)

lemma reachable_inv:
  assumes "reachable it"
  shows "total_lines it = int (length (batches it)) \<and> bptt it \<noteq> 0
       \<and> total_iters it = total_lines it div bptt it - 1
       \<and> 0 \<le> curr_line it \<and> 0 \<le> curr_iter it"
  using assms
proof (induction rule: reachable.induct)
  case (reach_init seq b ssize rl ft it)
  then show ?case using init_fields[OF reach_init] by simp
next
  case (reach_iter it)
  then show ?case by (simp add: SequenceIterator_iter_def)
next
  case (reach_next it r bt it')
  from reach_next.hyps(2) have nc: "\<not> completed it"
    and it': "it' = it \<lparr> curr_line := curr_line it + get_sequence_length r it,
                         curr_iter := curr_iter it + 1 \<rparr>"
    by (auto simp: SequenceIterator_next_def Let_def split: if_splits)
  from reach_next.IH nc have "1 \<le> get_sequence_length r it" by (intro seq_len_pos) simp_all
  with reach_next.IH it' show ?case by simp
qed

subsection \<open>The lane matrix\<close>

lemma lane_bound:
  assumes "j < (l::nat)"
  shows "j * T + T \<le> T * l"
proof -
  have "(j + 1) * T \<le> l * T" using assms by (intro mult_le_mono1) simp
  then show ?thesis by (simp add: algebra_simps)
qed

lemma chunk_nth:
  assumes "i < T" "j < l" "T * l \<le> length xs"
  shows "take T (drop (j * T) (take (T * l) xs)) ! i = xs ! (j * T + i)"
proof -
  have b: "j * T + i < T * l" using lane_bound[OF assms(2), of T] assms(1) by linarith
  have "take T (drop (j * T) (take (T * l) xs)) ! i = drop (j * T) (take (T * l) xs) ! i"
    using assms(1) by simp
  also have "\<dots> = take (T * l) xs ! (j * T + i)"
  proof -
    have "length (take (T * l) xs) = T * l" using assms(3) by simp
    moreover have "j * T \<le> T * l" using b by linarith
    ultimately show ?thesis by (simp only: nth_drop)
  qed
  also have "\<dots> = xs ! (j * T + i)" using b by simp
  finally show ?thesis .
qed

lemma concat_chunks:
  "T * l \<le> length xs \<Longrightarrow> concat (map (\<lambda>j. take T (drop (j * T) xs)) [0..<l]) = take (T * l) xs"
proof (induction l)
  case 0
  then show ?case by simp
next
  case (Suc l)
  then have "T * l \<le> length xs" by simp
  with Suc.IH have "concat (map (\<lambda>j. take T (drop (j * T) xs)) [0..<Suc l])
      = take (T * l) xs @ take T (drop (l * T) xs)" by simp
  also have "\<dots> = take (T * l + T) xs" by (simp add: take_add mult.commute)
  also have "T * l + T = T * Suc l" by simp
  finally show ?case .
qed

lemma make_batches_rows:
  assumes "0 < l"
  shows "make_batches seq (int l) =
    Inr (map (\<lambda>i. map (\<lambda>j. seq ! (j * (length seq div l) + i)) [0..<l]) [0..<length seq div l])"
proof -
  define T where "T = length seq div l"
  define tr where "tr = take (T * l) seq"
  define v where "v = map (\<lambda>j. take T (drop (j * T) tr)) [0..<l]"
  have le: "T * l \<le> length seq" unfolding T_def by simp
  have len_tr: "length tr = T * l" using le by (simp add: tr_def)
  have pre: "py_prefix seq (int (length seq) div int l * int l) = tr"
  proof -
    have "int (length seq) div int l * int l = int (T * l)"
      by (simp add: T_def zdiv_int)
    then show ?thesis using le
      by (simp add: py_prefix_def slice_bound_def tr_def del: of_nat_mult)
  qed
  have view: "view2 tr (int l) = Inr v"
    using assms len_tr by (simp add: view2_def v_def Let_def)
  have "l = Suc (l - 1)" using assms by simp
  then obtain r rest where v_cons: "v = r # rest" and r: "r = take T tr"
    unfolding v_def by (metis (no_types, lifting) drop0 list.simps(9) mult_zero_left upt_conv_Cons zero_less_Suc)
  have len_r: "length r = T"
  proof -
    have "T \<le> T * l" using assms by simp
    then show ?thesis by (simp add: r len_tr)
  qed
  have "t v = map (\<lambda>i. map (\<lambda>row. row ! i) v) [0..<T]"
    by (simp add: t_def v_cons len_r)
  also have "\<dots> = map (\<lambda>i. map (\<lambda>j. seq ! (j * T + i)) [0..<l]) [0..<T]"
  proof -
    have el: "take T (drop (j * T) tr) ! i = seq ! (j * T + i)" if "i < T" "j < l" for i j
      unfolding tr_def using chunk_nth[OF that le] .
    have el2: "drop (j * T) tr ! i = seq ! (j * T + i)" if "i < T" "j < l" for i j
      using el[OF that] that by simp
    show ?thesis unfolding v_def map_map comp_def
      by (intro map_cong refl) (simp add: el2)
  qed
  finally have tv: "t v = map (\<lambda>i. map (\<lambda>j. seq ! (j * T + i)) [0..<l]) [0..<T]" .
  show ?thesis
    using assms pre view tv by (simp add: make_batches_def Let_def T_def)
qed

lemma column_major:
  assumes "T * l \<le> length seq"
  shows "concat (map (\<lambda>j. map (\<lambda>row. row ! j)
            (map (\<lambda>i. map (\<lambda>j. seq ! (j * T + i)) [0..<l]) [0..<T])) [0..<l])
         = take (T * l) seq"
proof -
  have col: "map (\<lambda>row. row ! j) (map (\<lambda>i. map (\<lambda>j. seq ! (j * T + i)) [0..<l]) [0..<T])
     = take T (drop (j * T) seq)" if "j < l" for j
  proof -
    have "j * T + T \<le> T * l" using that by (rule lane_bound)
    with assms have b: "j * T + T \<le> length seq" by linarith
    show ?thesis
    proof (rule nth_equalityI)
      show "length (map (\<lambda>row. row ! j) (map (\<lambda>i. map (\<lambda>j. seq ! (j * T + i)) [0..<l]) [0..<T]))
          = length (take T (drop (j * T) seq))" using b by simp
    next
      fix i assume "i < length (map (\<lambda>row. row ! j) (map (\<lambda>i. map (\<lambda>j. seq ! (j * T + i)) [0..<l]) [0..<T]))"
      then have "i < T" by simp
      then show "map (\<lambda>row. row ! j) (map (\<lambda>i. map (\<lambda>j. seq ! (j * T + i)) [0..<l]) [0..<T]) ! i
          = take T (drop (j * T) seq) ! i" using that b by simp
    qed
  qed
  have "concat (map (\<lambda>j. map (\<lambda>row. row ! j)
            (map (\<lambda>i. map (\<lambda>j. seq ! (j * T + i)) [0..<l]) [0..<T])) [0..<l])
     = concat (map (\<lambda>j. take T (drop (j * T) seq)) [0..<l])"
    using col by (intro arg_cong[where f=concat] map_cong) simp_all
  then show ?thesis using concat_chunks[OF assms] by simp
qed

subsection \<open>What one call of next emits\<close>

lemma next_emits:
  assumes "reachable it" and "SequenceIterator_next r it = Inr ((X, y), it')"
  shows "\<exists>w. w = min (get_sequence_length r it) (total_lines it - 1 - curr_line it)
           \<and> 1 \<le> w \<and> 0 \<le> curr_line it \<and> curr_line it + 1 + w \<le> int (length (batches it))
           \<and> X = take (nat w) (drop (nat (curr_line it)) (batches it))
           \<and> y = (if flatten_target it
                   then Flat (concat (take (nat w) (drop (nat (curr_line it) + 1) (batches it))))
                   else Block (take (nat w) (drop (nat (curr_line it) + 1) (batches it))))
           \<and> it' = it \<lparr> curr_line := curr_line it + get_sequence_length r it,
                          curr_iter := curr_iter it + 1 \<rparr>"
proof -
  define i where "i = curr_line it"
  define w where "w = min (get_sequence_length r it) (total_lines it - 1 - i)"
  from assms(2) have nc: "\<not> completed it"
    and gb: "get_batch it (get_sequence_length r it) = (X, y)"
    and it': "it' = it \<lparr> curr_line := curr_line it + get_sequence_length r it,
                         curr_iter := curr_iter it + 1 \<rparr>"
    by (auto simp: SequenceIterator_next_def Let_def split: if_splits)
  note inv = reachable_inv[OF assms(1)]
  from inv nc have sl: "1 \<le> get_sequence_length r it" by (intro seq_len_pos) simp_all
  from nc have "i < total_lines it - 1" by (simp add: completed_iff i_def)
  with sl have w1: "1 \<le> w" by (simp add: w_def)
  from inv have i0: "0 \<le> i" by (simp add: i_def)
  have top: "i + 1 + w \<le> int (length (batches it))" using inv by (simp add: w_def)
  have sx: "py_slice (batches it) i (i + w) = take (nat w) (drop (nat i) (batches it))"
    using i0 w1 top by (intro py_slice_window) simp_all
  have sy: "py_slice (batches it) (i + 1) (i + 1 + w) = take (nat w) (drop (nat (i + 1)) (batches it))"
    using i0 w1 top by (intro py_slice_window) simp_all
  have n1: "nat (i + 1) = nat i + 1" using i0 by simp
  from gb have "X = py_slice (batches it) i (i + w)"
    and "y = (if flatten_target it then Flat (concat (py_slice (batches it) (i + 1) (i + 1 + w)))
              else Block (py_slice (batches it) (i + 1) (i + 1 + w)))"
    by (auto simp: get_batch_def Let_def i_def w_def)
  with sx sy n1 w1 i0 top it' show ?thesis
    unfolding i_def w_def by (intro exI[of _ "min (get_sequence_length r it) (total_lines it - 1 - curr_line it)"]) simp
qed

subsection \<open>The example iterator\<close>

lemma example_init:
  "SequenceIterator_init example_seq 1 2 (Some True) True = Inr example_it0"
  unfolding example_seq_def example_it0_def by code_simp

lemma example_reach0: "reachable example_it0"
  by (rule reach_init[OF example_init])

lemma example_next0:
  "SequenceIterator_next draw_six example_it0 =
     Inr (([[1, 9], [2, 10], [3, 11], [4, 12], [5, 13], [6, 14]],
           Flat [2, 10, 3, 11, 4, 12, 5, 13, 6, 14, 7, 15]), example_it1)"
  by (simp add: example_it0_def example_it1_def draw_six_def SequenceIterator_next_def
        completed_def get_sequence_length_def py_int_def get_batch_def py_slice_def
        slice_bound_def Let_def)

lemma example_reach1: "reachable example_it1"
  by (rule reach_next[OF example_reach0 example_next0])

lemma example_next1:
  "SequenceIterator_next draw_halved example_it1 =
     Inr (([[7, 15]], Flat [8, 16]), example_it1 \<lparr> curr_iter := 2, curr_line := 11 \<rparr>)"
  by (simp add: example_it0_def example_it1_def draw_halved_def SequenceIterator_next_def
        completed_def get_sequence_length_def py_int_def get_batch_def py_slice_def
        slice_bound_def Let_def)

lemma get_sequence_length_None:
  "random_length it = None \<Longrightarrow> get_sequence_length r it = bptt it"
  by (simp add: get_sequence_length_def)

section \<open>The claims about the sequence iterator\<close>

text \<open>
  C1. The claim: an iterator built with window randomization switched off
  (\<open>random_length = False\<close>) uses the base window \<open>bptt\<close> at every step. The code
  tests \<open>random_length is None\<close>, which \<open>False\<close> does not satisfy, so the window is
  still drawn at random. Evaluated here on an iterator built with \<open>bptt = 10\<close> and
  \<open>random_length = False\<close>, with draws 0.5 (no halving) and a normal sample of
  \<open>10 + 7.3\<close>: the length returned is 17, not 10.
\<close>

theorem random_length_False_still_randomized:
  "(case SequenceIterator_init [1, 2, 3, 4 :: int] 10 2 (Some False) True of
      Inl e \<Rightarrow> False
    | Inr it \<Rightarrow>
        random_length it = Some False \<and> bptt it = 10
        \<and> get_sequence_length
            \<lparr> np_random = 1 / 2, np_normal = (\<lambda>loc scale. loc + 73 / 10) \<rparr> it = 17)"
  by code_simp

text \<open>
  C2. On every iterator a program can hold: \<open>next\<close> raises \<open>StopIteration\<close>
  exactly when \<open>curr_line >= total_lines - 1\<close> or \<open>curr_iter >= total_iters\<close>, it
  raises nothing else, \<open>total_iters\<close> is \<open>total_lines // bptt - 1\<close>, and whenever
  a batch is emitted neither condition held, \<open>curr_line\<close> strictly increases and
  \<open>curr_iter\<close> grows by one.
\<close>

theorem next_advances_or_stops:
  assumes "reachable it"
  shows "(SequenceIterator_next r it = Inl StopIteration
            \<longleftrightarrow> (curr_line it \<ge> total_lines it - 1 \<or> curr_iter it \<ge> total_iters it))
       \<and> (\<forall>e. SequenceIterator_next r it \<noteq> Inl e \<or> e = StopIteration)
       \<and> total_iters it = total_lines it div bptt it - 1
       \<and> (\<forall>bt it'. SequenceIterator_next r it = Inr (bt, it') \<longrightarrow>
             curr_line it < curr_line it' \<and> curr_iter it' = curr_iter it + 1
           \<and> curr_line it < total_lines it - 1 \<and> curr_iter it < total_iters it)"
proof -
  note inv = reachable_inv[OF assms]
  have a: "SequenceIterator_next r it = Inl StopIteration
            \<longleftrightarrow> (curr_line it \<ge> total_lines it - 1 \<or> curr_iter it \<ge> total_iters it)"
    by (simp add: SequenceIterator_next_def Let_def completed_iff)
  have b: "\<forall>e. SequenceIterator_next r it \<noteq> Inl e \<or> e = StopIteration"
    by (simp add: SequenceIterator_next_def Let_def)
  have c: "curr_line it < curr_line it' \<and> curr_iter it' = curr_iter it + 1
           \<and> curr_line it < total_lines it - 1 \<and> curr_iter it < total_iters it"
    if "SequenceIterator_next r it = Inr (bt, it')" for bt it'
  proof -
    from that have nc: "\<not> completed it"
      and it': "it' = it \<lparr> curr_line := curr_line it + get_sequence_length r it,
                         curr_iter := curr_iter it + 1 \<rparr>"
      by (auto simp: SequenceIterator_next_def Let_def split: if_splits)
    from inv nc have "1 \<le> get_sequence_length r it" by (intro seq_len_pos) simp_all
    with nc it' show ?thesis by (simp add: completed_iff)
  qed
  from a b c inv show ?thesis by blast
qed

theorem next_advances_or_stops_witness:
  "reachable example_it0
   \<and> SequenceIterator_next draw_six example_it0 \<noteq> Inl StopIteration
   \<and> curr_line example_it0 = 0 \<and> curr_line example_it1 = 6
   \<and> curr_line example_it0 < curr_line example_it1
   \<and> curr_iter example_it1 = curr_iter example_it0 + 1
   \<and> curr_line example_it0 < total_lines example_it0 - 1
   \<and> curr_iter example_it0 < total_iters example_it0"
  using next_advances_or_stops[OF example_reach0, of draw_six] example_next0 example_reach0
  by (simp add: example_it0_def example_it1_def)

text \<open>
  C3. A batch emitted at row cursor \<open>i\<close> with emitted window \<open>w\<close> (the drawn length
  capped at \<open>total_lines - 1 - i\<close>) has \<open>input = matrix[i : i + w]\<close> and target rows
  \<open>matrix[i + 1 : i + 1 + w]\<close>, both of exactly \<open>w\<close> rows: row \<open>j\<close> of the target is
  row \<open>i + 1 + j\<close> of the matrix, which is row \<open>j + 1\<close> of the input. With
  \<open>flatten_target\<close> the target is the row-major concatenation of these rows.
\<close>

theorem batch_target_is_shifted_input:
  assumes "reachable it" and "SequenceIterator_next r it = Inr ((X, y), it')"
  shows "\<exists>i w rows. i = nat (curr_line it)
          \<and> w = nat (min (get_sequence_length r it) (total_lines it - 1 - curr_line it))
          \<and> X = take w (drop i (batches it))
          \<and> rows = take w (drop (i + 1) (batches it))
          \<and> y = (if flatten_target it then Flat (concat rows) else Block rows)
          \<and> length X = w \<and> length rows = w
          \<and> (\<forall>j<w. X ! j = batches it ! (i + j) \<and> rows ! j = batches it ! (i + 1 + j))
          \<and> (\<forall>j. j + 1 < w \<longrightarrow> rows ! j = X ! (j + 1))"
proof -
  from next_emits[OF assms] obtain w where
    w: "w = min (get_sequence_length r it) (total_lines it - 1 - curr_line it)"
    and w1: "1 \<le> w" and i0: "0 \<le> curr_line it"
    and top: "curr_line it + 1 + w \<le> int (length (batches it))"
    and X: "X = take (nat w) (drop (nat (curr_line it)) (batches it))"
    and y: "y = (if flatten_target it
                   then Flat (concat (take (nat w) (drop (nat (curr_line it) + 1) (batches it))))
                   else Block (take (nat w) (drop (nat (curr_line it) + 1) (batches it))))"
    by blast
  have b: "nat (curr_line it) + 1 + nat w \<le> length (batches it)" using w1 i0 top by linarith
  show ?thesis
    using X y b unfolding w[symmetric]
    by (intro exI[of _ "nat (curr_line it)"] exI[of _ "nat w"]
          exI[of _ "take (nat w) (drop (nat (curr_line it) + 1) (batches it))"])
       (auto simp: add.commute add.left_commute)
qed

theorem batch_target_is_shifted_input_witness:
  "reachable example_it0
   \<and> SequenceIterator_next draw_six example_it0 =
       Inr (([[1, 9], [2, 10], [3, 11], [4, 12], [5, 13], [6, 14]],
             Flat [2, 10, 3, 11, 4, 12, 5, 13, 6, 14, 7, 15]), example_it1)
   \<and> (\<exists>i w rows. i = nat (curr_line example_it0)
          \<and> w = nat (min (get_sequence_length draw_six example_it0)
                         (total_lines example_it0 - 1 - curr_line example_it0))
          \<and> [[1, 9], [2, 10], [3, 11], [4, 12], [5, 13], [6, 14]]
              = take w (drop i (batches example_it0))
          \<and> rows = take w (drop (i + 1) (batches example_it0))
          \<and> Flat [2, 10, 3, 11, 4, 12, 5, 13, 6, 14, 7, 15]
              = (if flatten_target example_it0 then Flat (concat rows) else Block rows)
          \<and> length [[1, 9], [2, 10], [3, 11], [4, 12], [5, 13], [6 :: int, 14]] = w
          \<and> length rows = w
          \<and> (\<forall>j<w. [[1, 9], [2, 10], [3, 11], [4, 12], [5, 13], [6, 14]] ! j
                       = batches example_it0 ! (i + j)
                    \<and> rows ! j = batches example_it0 ! (i + 1 + j))
          \<and> (\<forall>j. j + 1 < w \<longrightarrow>
                 rows ! j = [[1, 9], [2, 10], [3, 11], [4, 12], [5, 13], [6, 14]] ! (j + 1)))"
  by (rule conjI[OF example_reach0 conjI[OF example_next0
        batch_target_is_shifted_input[OF example_reach0 example_next0]]])

text \<open>
  C5. For a lane count \<open>L >= 1\<close> the constructor returns an iterator exactly when the
  base window is not zero, and every iterator it returns has
  \<open>total_lines = floor(N / L)\<close> rows of \<open>L\<close> tokens each, \<open>total_lines * L\<close>
  tokens in all; the token in row \<open>i\<close>, lane \<open>j\<close> is token
  \<open>j * total_lines + i\<close> of the sequence, and reading the matrix column by column
  gives back the first \<open>total_lines * L\<close> tokens in order.
\<close>

theorem init_lanes_column_major:
  assumes "1 \<le> L"
  shows "(b \<noteq> 0 \<longrightarrow> (\<exists>it. SequenceIterator_init seq b L rl ft = Inr it))
       \<and> (\<forall>it. SequenceIterator_init seq b L rl ft = Inr it \<longrightarrow>
             total_lines it = int (length seq) div L
           \<and> length (batches it) = length seq div nat L
           \<and> (\<forall>row \<in> set (batches it). length row = nat L)
           \<and> length (concat (batches it)) = length seq div nat L * nat L
           \<and> (\<forall>i < length seq div nat L. \<forall>j < nat L.
                 batches it ! i ! j = seq ! (j * (length seq div nat L) + i))
           \<and> concat (map (\<lambda>j. map (\<lambda>row. row ! j) (batches it)) [0..<nat L])
               = take (length seq div nat L * nat L) seq)"
proof -
  define l where "l = nat L"
  define T where "T = length seq div l"
  define M where "M = map (\<lambda>i. map (\<lambda>j. seq ! (j * T + i)) [0..<l]) [0..<T]"
  have l: "0 < l" and L: "L = int l" using assms by (simp_all add: l_def)
  have mb: "make_batches seq L = Inr M"
    unfolding L M_def T_def by (rule make_batches_rows[OF l])
  have le: "T * l \<le> length seq" by (simp add: T_def)
  have ex: "b \<noteq> 0 \<longrightarrow> (\<exists>it. SequenceIterator_init seq b L rl ft = Inr it)"
    by (simp add: SequenceIterator_init_def mb)
  have props: "total_lines it = int (length seq) div L
           \<and> length (batches it) = T
           \<and> (\<forall>row \<in> set (batches it). length row = l)
           \<and> length (concat (batches it)) = T * l
           \<and> (\<forall>i < T. \<forall>j < l. batches it ! i ! j = seq ! (j * T + i))
           \<and> concat (map (\<lambda>j. map (\<lambda>row. row ! j) (batches it)) [0..<l]) = take (T * l) seq"
    if "SequenceIterator_init seq b L rl ft = Inr it" for it
  proof -
    from that have bs: "batches it = M" and tl: "total_lines it = int (length M)"
      by (auto simp: SequenceIterator_init_def mb split: if_splits)
    have lenM: "length M = T" by (simp add: M_def)
    have "int (length seq) div L = int T" by (simp add: L T_def zdiv_int)
    with tl lenM have a: "total_lines it = int (length seq) div L" by simp
    have rows: "\<forall>row \<in> set M. length row = l" by (auto simp: M_def)
    have cnt: "length (concat M) = T * l"
      by (simp add: M_def length_concat comp_def sum_list_triv)
    have el: "\<forall>i < T. \<forall>j < l. M ! i ! j = seq ! (j * T + i)" by (simp add: M_def)
    have cm: "concat (map (\<lambda>j. map (\<lambda>row. row ! j) M) [0..<l]) = take (T * l) seq"
      unfolding M_def by (rule column_major[OF le])
    from a lenM rows cnt el cm show ?thesis by (simp add: bs)
  qed
  from ex props show ?thesis unfolding T_def l_def by blast
qed

theorem init_lanes_column_major_witness:
  "(1 :: int) \<le> 2
   \<and> SequenceIterator_init example_seq 1 2 (Some True) True = Inr example_it0
   \<and> total_lines example_it0 = 8
   \<and> length (batches example_it0) = 8
   \<and> length (concat (batches example_it0)) = 16
   \<and> concat (map (\<lambda>j. map (\<lambda>row. row ! j) (batches example_it0)) [0..<2]) = example_seq"
proof -
  have len: "length example_seq = 16" by (simp add: example_seq_def)
  have one: "(1 :: int) \<le> 2" by simp
  from init_lanes_column_major[OF one, of 1 example_seq "Some True" True] example_init
  have "total_lines example_it0 = int (length example_seq) div 2
           \<and> length (batches example_it0) = length example_seq div nat 2
           \<and> length (concat (batches example_it0)) = length example_seq div nat 2 * nat 2
           \<and> concat (map (\<lambda>j. map (\<lambda>row. row ! j) (batches example_it0)) [0..<nat 2])
               = take (length example_seq div nat 2 * nat 2) example_seq"
    by blast
  with len example_init show ?thesis by simp
qed

text \<open>
  C7. The claim as stated, "for every sequence shorter than the lane count the
  construction succeeds without a division error", fails when the base window is zero:
  the constructor divides \<open>total_lines\<close> by \<open>bptt\<close>.
\<close>

theorem init_zero_window_counterexample:
  "SequenceIterator_init [7 :: int] 0 4 (Some True) True = Inl ZeroDivisionError"
  by code_simp

text \<open>
  C7, amended. For every sequence shorter than the lane count and every base window
  other than zero, the constructor returns an iterator with no rows, and \<open>next\<close> raises
  \<open>StopIteration\<close> at the first request, before and after \<open>__iter__\<close>.
\<close>

theorem short_sequence_exhausted:
  assumes "int (length seq) < L" and "b \<noteq> 0"
  shows "\<exists>it. SequenceIterator_init seq b L rl ft = Inr it
            \<and> total_lines it = 0 \<and> batches it = []
            \<and> SequenceIterator_next r it = Inl StopIteration
            \<and> SequenceIterator_next r (SequenceIterator_iter it) = Inl StopIteration"
proof -
  have l: "0 < nat L" and L: "L = int (nat L)" using assms(1) by simp_all
  have z: "length seq div nat L = 0" using assms(1) by simp
  have mb: "make_batches seq L = Inr []"
    using make_batches_rows[OF l, of seq] z L by simp
  then show ?thesis using assms(2)
    by (simp add: SequenceIterator_init_def SequenceIterator_next_def
          SequenceIterator_iter_def completed_def)
qed

theorem short_sequence_exhausted_witness:
  "int (length [7 :: int]) < 4 \<and> (10 :: int) \<noteq> 0
   \<and> (\<exists>it. SequenceIterator_init [7 :: int] 10 4 (Some True) True = Inr it
         \<and> total_lines it = 0 \<and> batches it = []
         \<and> SequenceIterator_next draw_six it = Inl StopIteration
         \<and> SequenceIterator_next draw_six (SequenceIterator_iter it) = Inl StopIteration)"
  using short_sequence_exhausted[of "[7 :: int]" 4 10 "Some True" True draw_six] by simp

text \<open>
  C9. Every emitted batch has exactly \<open>min(seq_len, total_lines - 1 - curr_line)\<close>
  input rows, at least one, and its target ends at row \<open>total_lines - 1\<close> at the
  latest; with randomization the drawn length is at least 5. The cap does bite: the
  example iterator emits a batch of a single row from a drawn length of 5.
\<close>

theorem emitted_rows_capped:
  "(\<forall>it r X y it'. reachable it \<and> SequenceIterator_next r it = Inr ((X, y), it') \<longrightarrow>
       int (length X) = min (get_sequence_length r it) (total_lines it - 1 - curr_line it)
     \<and> 1 \<le> length X
     \<and> curr_line it + 1 + int (length X) \<le> total_lines it
     \<and> (random_length it \<noteq> None \<longrightarrow> 5 \<le> get_sequence_length r it))
   \<and> (\<exists>(it :: int sequence_iterator) r X y it'.
         reachable it \<and> SequenceIterator_next r it = Inr ((X, y), it')
       \<and> random_length it \<noteq> None \<and> 5 \<le> get_sequence_length r it \<and> length X = 1)"
proof (intro conjI allI impI)
  fix it :: "'a sequence_iterator" and r X y it'
  assume h: "reachable it \<and> SequenceIterator_next r it = Inr ((X, y), it')"
  then have re: "reachable it" and nx: "SequenceIterator_next r it = Inr ((X, y), it')" by simp_all
  from next_emits[OF re nx] obtain w where
    w: "w = min (get_sequence_length r it) (total_lines it - 1 - curr_line it)"
    and w1: "1 \<le> w" and i0: "0 \<le> curr_line it"
    and top: "curr_line it + 1 + w \<le> int (length (batches it))"
    and X: "X = take (nat w) (drop (nat (curr_line it)) (batches it))"
    by blast
  have b: "nat (curr_line it) + 1 + nat w \<le> length (batches it)" using w1 i0 top by linarith
  then have lx: "length X = nat w" using X by simp
  from lx w w1 show "int (length X) = min (get_sequence_length r it) (total_lines it - 1 - curr_line it)"
    by simp
  from lx w1 show "1 \<le> length X" by simp
  from lx w1 top reachable_inv[OF re] show "curr_line it + 1 + int (length X) \<le> total_lines it"
    by simp
  assume "random_length it \<noteq> None"
  then show "5 \<le> get_sequence_length r it" by (rule seq_len_random)
next
  have "5 \<le> get_sequence_length draw_halved example_it1"
    by (rule seq_len_random) (simp add: example_it1_def example_it0_def)
  moreover have "random_length example_it1 \<noteq> None" by (simp add: example_it1_def example_it0_def)
  ultimately show "\<exists>(it :: int sequence_iterator) r X y it'.
         reachable it \<and> SequenceIterator_next r it = Inr ((X, y), it')
       \<and> random_length it \<noteq> None \<and> 5 \<le> get_sequence_length r it \<and> length X = 1"
    using example_reach1 example_next1
    by (intro exI[of _ example_it1] exI[of _ draw_halved] exI[of _ "[[7, 15]]"]
          exI[of _ "Flat [8, 16]"] exI[of _ "example_it1 \<lparr> curr_iter := 2, curr_line := 11 \<rparr>"]) simp
qed

theorem emitted_rows_capped_witness:
  "reachable example_it1
   \<and> SequenceIterator_next draw_halved example_it1 =
       Inr (([[7, 15]], Flat [8, 16]), example_it1 \<lparr> curr_iter := 2, curr_line := 11 \<rparr>)
   \<and> get_sequence_length draw_halved example_it1 = 5
   \<and> total_lines example_it1 - 1 - curr_line example_it1 = 1
   \<and> int (length [[7 :: int, 15]]) = min (get_sequence_length draw_halved example_it1)
        (total_lines example_it1 - 1 - curr_line example_it1)
   \<and> curr_line example_it1 + 1 + int (length [[7 :: int, 15]]) \<le> total_lines example_it1"
proof -
  have "reachable example_it1 \<and> SequenceIterator_next draw_halved example_it1 =
       Inr (([[7, 15]], Flat [8, 16]), example_it1 \<lparr> curr_iter := 2, curr_line := 11 \<rparr>)"
    using example_reach1 example_next1 by simp
  with emitted_rows_capped have "int (length [[7 :: int, 15]]) = min (get_sequence_length draw_halved example_it1)
        (total_lines example_it1 - 1 - curr_line example_it1)
     \<and> curr_line example_it1 + 1 + int (length [[7 :: int, 15]]) \<le> total_lines example_it1"
    by blast
  moreover have "get_sequence_length draw_halved example_it1 = 5"
    by (simp add: get_sequence_length_def draw_halved_def example_it1_def example_it0_def py_int_def)
  moreover have "total_lines example_it1 - 1 - curr_line example_it1 = 1"
    by (simp add: example_it1_def example_it0_def)
  ultimately show ?thesis using example_reach1 example_next1 by simp
qed

section \<open>Facts about doubles\<close>

subsection \<open>Exponent and rounding\<close>

lemma pow2_powi: "pow2 k = 2 powi k"
  by (simp add: pow2_def power_int_def field_simps)

lemma pow2_pos: "0 < pow2 k"
  by (simp add: pow2_powi)

lemma pow2_mono: "a \<le> b \<Longrightarrow> pow2 a \<le> pow2 b"
  by (simp add: pow2_powi power_int_increasing)

lemma pow2_strict: "a < b \<Longrightarrow> pow2 a < pow2 b"
  by (simp add: pow2_powi power_int_strict_increasing)

lemma pow2_add: "pow2 (a + b) = pow2 a * pow2 b"
  by (simp add: pow2_powi power_int_add)

lemma pow2_diff: "pow2 (a - b) = pow2 a / pow2 b"
  by (simp add: pow2_powi power_int_diff)

lemma bitlen_pow2_bounds:
  assumes "0 < p"
  shows "pow2 (bitlen p - 1) \<le> of_int p \<and> (of_int p :: rat) < pow2 (bitlen p)"
proof -
  have b1: "1 \<le> bitlen p" using assms bitlen_nonneg[of p] bitlen_eq_zero_iff[of p] by linarith
  from bitlen_bounds[OF assms]
  have "(of_int (2 ^ nat (bitlen p - 1)) :: rat) \<le> of_int p"
    and "(of_int p :: rat) < of_int (2 ^ nat (bitlen p))"
    by (simp_all only: of_int_le_iff of_int_less_iff)
  then show ?thesis using b1 by (simp add: pow2_def)
qed

lemma ilog2_bounds:
  assumes "x \<noteq> 0"
  shows "pow2 (ilog2 x) \<le> \<bar>x\<bar> \<and> \<bar>x\<bar> < pow2 (ilog2 x + 1)"
proof -
  obtain p q where pq: "quotient_of \<bar>x\<bar> = (p, q)" by (cases "quotient_of \<bar>x\<bar>")
  then have q: "0 < q" and x: "\<bar>x\<bar> = of_int p / of_int q"
    by (simp_all add: quotient_of_denom_pos quotient_of_div)
  from assms have "0 < \<bar>x\<bar>" by simp
  with q x have p: "0 < p" by (simp add: zero_less_divide_iff)
  define d where "d = bitlen p - bitlen q"
  have pb: "pow2 (bitlen p - 1) \<le> of_int p" "(of_int p :: rat) < pow2 (bitlen p)"
    using bitlen_pow2_bounds[OF p] by simp_all
  have qb: "pow2 (bitlen q - 1) \<le> of_int q" "(of_int q :: rat) < pow2 (bitlen q)"
    using bitlen_pow2_bounds[OF q] by simp_all
  have qpos: "(0 :: rat) < of_int q" using q by simp
  have up: "\<bar>x\<bar> < pow2 (d + 1)"
  proof -
    have "of_int p < pow2 (bitlen p)" by (rule pb)
    also have "\<dots> = pow2 (d + 1) * pow2 (bitlen q - 1)"
      by (simp add: d_def pow2_add[symmetric])
    also have "\<dots> \<le> pow2 (d + 1) * of_int q"
      using qb(1) pow2_pos[of "d + 1"] by (simp add: mult_left_mono)
    finally show ?thesis using qpos by (simp add: x pos_divide_less_eq)
  qed
  have lo: "pow2 (d - 1) \<le> \<bar>x\<bar>"
  proof -
    have "pow2 (d - 1) * of_int q \<le> pow2 (d - 1) * pow2 (bitlen q)"
      using qb(2) pow2_pos[of "d - 1"] by (simp add: mult_left_mono)
    also have "\<dots> = pow2 (bitlen p - 1)" by (simp add: d_def pow2_add[symmetric])
    also have "\<dots> \<le> of_int p" by (rule pb)
    finally show ?thesis using qpos by (simp add: x pos_le_divide_eq)
  qed
  show ?thesis
  proof (cases "pow2 d \<le> \<bar>x\<bar>")
    case True
    then have "ilog2 x = d" by (simp add: ilog2_def pq d_def)
    with True up show ?thesis by simp
  next
    case False
    then have "ilog2 x = d - 1" by (simp add: ilog2_def pq d_def)
    with False lo show ?thesis by simp
  qed
qed

lemma ilog2_eq:
  assumes "pow2 e \<le> \<bar>x\<bar>" "\<bar>x\<bar> < pow2 (e + 1)"
  shows "ilog2 x = e"
proof -
  from assms pow2_pos[of e] have "x \<noteq> 0" by auto
  note b = ilog2_bounds[OF this]
  have "\<not> ilog2 x < e"
  proof
    assume "ilog2 x < e"
    then have "pow2 (ilog2 x + 1) \<le> pow2 e" by (intro pow2_mono) simp
    with b assms show False by simp
  qed
  moreover have "\<not> e < ilog2 x"
  proof
    assume "e < ilog2 x"
    then have "pow2 (e + 1) \<le> pow2 (ilog2 x)" by (intro pow2_mono) simp
    with b assms show False by simp
  qed
  ultimately show ?thesis by simp
qed

lemma round_half_even_eq:
  assumes "\<bar>q - of_int m\<bar> < 1 / 2 \<or> (\<bar>q - of_int m\<bar> = 1 / 2 \<and> even m)"
  shows "round_half_even q = m"
proof -
  define f where "f = \<lfloor>q\<rfloor>"
  have f: "of_int f \<le> q" "q < of_int f + 1" unfolding f_def by linarith+
  from assms show ?thesis
  proof
    assume a: "\<bar>q - of_int m\<bar> < 1 / 2"
    then have "of_int m - 1 < q" "q < of_int m + 1" by linarith+
    with f have "of_int f < (of_int m + 1 :: rat)" "(of_int m - 1 :: rat) < of_int f + 1" by linarith+
    then have "f < m + 1" "m - 1 < f + 1" by (simp_all flip: of_int_less_iff[where 'a=rat])
    then consider "m = f" | "m = f + 1" by linarith
    then show ?thesis
    proof cases
      case 1
      with a have "q - of_int f < 1 / 2" by linarith
      then show ?thesis using 1 by (simp add: round_half_even_def f_def Let_def)
    next
      case 2
      then have om: "(of_int m :: rat) = of_int f + 1" by simp
      from a have "of_int m - q < 1 / 2" by linarith
      with om have "1 / 2 < q - of_int f" by linarith
      then show ?thesis using 2 by (simp add: round_half_even_def f_def Let_def)
    qed
  next
    assume a: "\<bar>q - of_int m\<bar> = 1 / 2 \<and> even m"
    then have "of_int m - 1 < q" "q < of_int m + 1" by linarith+
    with f have "of_int f < (of_int m + 1 :: rat)" "(of_int m - 1 :: rat) < of_int f + 1" by linarith+
    then have "f < m + 1" "m - 1 < f + 1" by (simp_all flip: of_int_less_iff[where 'a=rat])
    then consider "m = f" | "m = f + 1" by linarith
    then show ?thesis
    proof cases
      case 1
      with a have "q - of_int f = 1 / 2" using f by linarith
      then show ?thesis using 1 a by (simp add: round_half_even_def f_def Let_def)
    next
      case 2
      then have om: "(of_int m :: rat) = of_int f + 1" by simp
      from a f om have "q - of_int f = 1 / 2" by linarith
      moreover have "odd f" using 2 a by simp
      ultimately show ?thesis using 2 by (simp add: round_half_even_def f_def Let_def)
    qed
  qed
qed

lemma fl_nearest:
  assumes "pow2 e \<le> \<bar>x\<bar>" "\<bar>x\<bar> < pow2 (e + 1)" "- 1022 \<le> e"
    and "\<bar>x / pow2 (e - 52) - of_int m\<bar> < 1 / 2
         \<or> (\<bar>x / pow2 (e - 52) - of_int m\<bar> = 1 / 2 \<and> even m)"
    and "\<bar>of_int m * pow2 (e - 52)\<bar> < pow2 1024"
  shows "fl x = Some (of_int m * pow2 (e - 52))"
proof -
  from assms(1) pow2_pos[of e] have nz: "x \<noteq> 0" by auto
  have e: "max (ilog2 x) (- 1022) = e" using ilog2_eq[OF assms(1,2)] assms(3) by simp
  have r: "round_half_even (x / pow2 (e - 52)) = m" using assms(4) by (rule round_half_even_eq)
  show ?thesis using nz assms(5) by (simp add: fl_def e r Let_def)
qed

subsection \<open>One hundred batches of loss 1.0\<close>

lemma fl_check:
  assumes "pow2 e \<le> x" "x < pow2 (e + 1)" "- 1022 \<le> e" "e \<le> 0"
    and "of_int m * pow2 (e - 52) = y"
    and "\<bar>x - y\<bar> * 2 < pow2 (e - 52) \<or> (\<bar>x - y\<bar> * 2 = pow2 (e - 52) \<and> even m)"
  shows "fl x = Some y"
proof -
  define u where "u = pow2 (e - 52)"
  have u: "0 < u" by (simp add: u_def pow2_pos)
  have xpos: "0 < x" using assms(1) pow2_pos[of e] by linarith
  have y: "y = of_int m * u" using assms(5) by (simp add: u_def)
  have d: "\<bar>x / u - of_int m\<bar> = \<bar>x - y\<bar> / u"
  proof -
    have "x / u - of_int m = (x - y) / u" using u by (simp add: y field_simps)
    then show ?thesis using u by (simp add: abs_divide)
  qed
  have near: "\<bar>x / u - of_int m\<bar> < 1 / 2 \<or> (\<bar>x / u - of_int m\<bar> = 1 / 2 \<and> even m)"
    using assms(6) u unfolding d u_def[symmetric] by (auto simp: field_simps)
  have small: "\<bar>of_int m * u\<bar> < pow2 1024"
  proof -
    from assms(6) have "\<bar>x - y\<bar> * 2 \<le> u" unfolding u_def by auto
    then have "\<bar>y\<bar> \<le> x + u / 2" using xpos by (auto simp: abs_if split: if_splits)
    also have "u \<le> pow2 e" unfolding u_def by (intro pow2_mono) simp
    also have "x < pow2 (e + 1)" by (rule assms(2))
    finally have "\<bar>y\<bar> < pow2 (e + 1) + pow2 e / 2" by simp
    also have "pow2 e \<le> pow2 (e + 1)" by (intro pow2_mono) simp
    finally have "\<bar>y\<bar> < 2 * pow2 (e + 1)" using pow2_pos[of "e + 1"] by simp
    also have "\<dots> = pow2 (e + 2)" by (simp add: pow2_powi power_int_add)
    also have "\<dots> \<le> pow2 1024" using assms(4) by (intro pow2_mono) simp
    finally show ?thesis by (simp add: y)
  qed
  have "fl x = Some (of_int m * pow2 (e - 52))"
    using assms(1,2,3) near small xpos unfolding u_def
    by (intro fl_nearest) simp_all
  then show ?thesis using assms(5) by simp
qed

lemma alpha_val: "fl (98 / 100) = Some (2206763817411543 / 2251799813685248)"
  by (rule fl_check[where e="- 1" and m="8827055269646172"]) (simp_all add: pow2_def)

lemma one_minus_alpha: "fsub (Some 1) (Some (2206763817411543 / 2251799813685248)) = Some (45035996273705 / 2251799813685248)"
  unfolding fsub_def
  by (simp, rule fl_check[where e="- 6" and m="5764607523034240"]) (simp_all add: pow2_def)

lemma loss_share: "fmul (Some 1) (Some (45035996273705 / 2251799813685248)) = Some (45035996273705 / 2251799813685248)"
  unfolding fmul_def
  by (simp, rule fl_check[where e="- 6" and m="5764607523034240"]) (simp_all add: pow2_def)

lemma ema_unit:
  assumes "fl (r * (2206763817411543 / 2251799813685248)) = Some pr" "fl (pr + 45035996273705 / 2251799813685248) = Some r'"
  shows "ema (fl (98 / 100)) (Some r) (Some 1) = Some r'"
proof -
  have "ema (fl (98 / 100)) (Some r) (Some 1)
      = fadd (fmul (Some r) (Some (2206763817411543 / 2251799813685248))) (fmul (Some 1) (fsub (Some 1) (Some (2206763817411543 / 2251799813685248))))"
    by (simp only: ema_def alpha_val)
  also have "\<dots> = fadd (fmul (Some r) (Some (2206763817411543 / 2251799813685248))) (Some (45035996273705 / 2251799813685248))"
    by (simp only: one_minus_alpha loss_share)
  also have "\<dots> = Some r'" using assms by (simp add: fmul_def fadd_def)
  finally show ?thesis .
qed

lemma foldl_replicate_Suc:
  "foldl f r (replicate (Suc n) c) = f (foldl f r (replicate n c)) c"
  by (induction n arbitrary: r) simp_all

lemma unit_loss_run_Suc:
  "unit_loss_run (Suc n) = ema (fl (98 / 100)) (unit_loss_run n) (Some 1)"
  unfolding unit_loss_run_def by (rule foldl_replicate_Suc)

lemma unit_loss_run_1: "unit_loss_run 1 = Some (45035996273705 / 2251799813685248)"
proof -
  have z: "fl (0 * (2206763817411543 / 2251799813685248)) = Some 0" by (simp add: fl_def)
  have "fl (0 + 45035996273705 / 2251799813685248) = Some (45035996273705 / 2251799813685248)"
    by (simp, rule fl_check[where e="- 6" and m="5764607523034240"]) (simp_all add: pow2_def)
  with z have "ema (fl (98 / 100)) (Some 0) (Some 1) = Some (45035996273705 / 2251799813685248)"
    by (intro ema_unit)
  moreover have "unit_loss_run 0 = Some 0" by (simp add: unit_loss_run_def)
  ultimately show ?thesis using unit_loss_run_Suc[of 0] by simp
qed

lemma run_step:
  assumes "unit_loss_run n = Some r" and "Suc n = n'"
    and "pow2 ea \<le> r * (2206763817411543 / 2251799813685248)" "r * (2206763817411543 / 2251799813685248) < pow2 (ea + 1)" "- 1022 \<le> ea" "ea \<le> 0"
    and "of_int ma * pow2 (ea - 52) = pr"
    and "\<bar>r * (2206763817411543 / 2251799813685248) - pr\<bar> * 2 < pow2 (ea - 52)
         \<or> (\<bar>r * (2206763817411543 / 2251799813685248) - pr\<bar> * 2 = pow2 (ea - 52) \<and> even ma)"
    and "pow2 eb \<le> pr + 45035996273705 / 2251799813685248" "pr + 45035996273705 / 2251799813685248 < pow2 (eb + 1)" "- 1022 \<le> eb" "eb \<le> 0"
    and "of_int mb * pow2 (eb - 52) = r'"
    and "\<bar>pr + 45035996273705 / 2251799813685248 - r'\<bar> * 2 < pow2 (eb - 52)
         \<or> (\<bar>pr + 45035996273705 / 2251799813685248 - r'\<bar> * 2 = pow2 (eb - 52) \<and> even mb)"
  shows "unit_loss_run n' = Some r'"
proof -
  have a: "fl (r * (2206763817411543 / 2251799813685248)) = Some pr" using assms(3-8) by (rule fl_check)
  have b: "fl (pr + 45035996273705 / 2251799813685248) = Some r'" using assms(9-14) by (rule fl_check)
  from ema_unit[OF a b] assms(1,2) unit_loss_run_Suc[of n] show ?thesis by simp
qed

lemma unit_loss_run_100:
  "unit_loss_run 100 = Some (3906334244860847 / 4503599627370496)"
proof -
  have s1: "unit_loss_run 1 = Some (45035996273705 / 2251799813685248)" by (rule unit_loss_run_1)
  have s2: "unit_loss_run 2 = Some (2853480723901949 / 72057594037927936)"
    by (rule run_step[OF s1, where ea="- 6" and ma="5649315372573555" and pr="5649315372573555 / 288230376151711744"
          and eb="- 5" and mb="5706961447803898"]) (simp_all add: pow2_def)
  have s3: "unit_loss_run 3 = Some (2118781495091235 / 36028797018963968)"
    by (rule run_step[OF s2, where ea="- 5" and ma="5592822218847820" and pr="1398205554711955 / 36028797018963968"
          and eb="- 5" and mb="8475125980364940"]) (simp_all add: pow2_def)
  have s4: "unit_loss_run 4 = Some (1398490902784345 / 18014398509481984)"
    by (rule run_step[OF s3, where ea="- 5" and ma="8305623460757641" and pr="8305623460757641 / 144115188075855872"
          and eb="- 4" and mb="5593963611137380"]) (simp_all add: pow2_def)
  have s5: "unit_loss_run 5 = Some (865404527459149 / 9007199254740992)"
    by (rule run_step[OF s4, where ea="- 4" and ma="5482084338914632" and pr="685260542364329 / 9007199254740992"
          and eb="- 4" and mb="6923236219673192"]) (simp_all add: pow2_def)
  have s6: "unit_loss_run 6 = Some (514120211002393 / 4503599627370496)"
    by (rule run_step[OF s5, where ea="- 4" and ma="6784771495279728" and pr="424048218454983 / 4503599627370496"
          and eb="- 4" and mb="8225923376038288"]) (simp_all add: pow2_def)
  have s7: "unit_loss_run 7 = Some (4751278394638041 / 36028797018963968)"
    by (rule run_step[OF s6, where ea="- 4" and ma="8061404908517522" and pr="4030702454258761 / 36028797018963968"
          and eb="- 3" and mb="4751278394638041"]) (simp_all add: pow2_def)
  have s8: "unit_loss_run 8 = Some (336051797945285 / 2251799813685248)"
    by (rule run_step[OF s7, where ea="- 3" and ma="4656252826745280" and pr="72753950417895 / 562949953421312"
          and eb="- 3" and mb="5376828767124560"]) (simp_all add: pow2_def)
  have s9: "unit_loss_run 9 = Some (5989868132161349 / 36028797018963968)"
    by (rule run_step[OF s8, where ea="- 3" and ma="5269292191782069" and pr="5269292191782069 / 36028797018963968"
          and eb="- 3" and mb="5989868132161349"]) (simp_all add: pow2_def)
  have s10: "unit_loss_run 10 = Some (3295323354948701 / 18014398509481984)"
    by (rule run_step[OF s9, where ea="- 3" and ma="5870070769518122" and pr="2935035384759061 / 18014398509481984"
          and eb="- 3" and mb="6590646709897402"]) (simp_all add: pow2_def)
  have s11: "unit_loss_run 11 = Some (3589704858039367 / 18014398509481984)"
    by (rule run_step[OF s10, where ea="- 3" and ma="6458833775699454" and pr="3229416887849727 / 18014398509481984"
          and eb="- 3" and mb="7179409716078734"]) (simp_all add: pow2_def)
  have s12: "unit_loss_run 12 = Some (7756397462136439 / 36028797018963968)"
    by (rule run_step[OF s11, where ea="- 3" and ma="7035821521757159" and pr="7035821521757159 / 36028797018963968"
          and eb="- 3" and mb="7756397462136439"]) (simp_all add: pow2_def)
  have s13: "unit_loss_run 13 = Some (4160922726636495 / 18014398509481984)"
    by (rule run_step[OF s12, where ea="- 3" and ma="7601269512893710" and pr="3800634756446855 / 18014398509481984"
          and eb="- 3" and mb="8321845453272990"]) (simp_all add: pow2_def)
  have s14: "unit_loss_run 14 = Some (4437992242293405 / 18014398509481984)"
    by (rule run_step[OF s13, where ea="- 3" and ma="8155408544207530" and pr="4077704272103765 / 18014398509481984"
          and eb="- 3" and mb="8875984484586810"]) (simp_all add: pow2_def)
  have s15: "unit_loss_run 15 = Some (4709520367637177 / 18014398509481984)"
    by (rule run_step[OF s14, where ea="- 3" and ma="8698464794895074" and pr="4349232397447537 / 18014398509481984"
          and eb="- 2" and mb="4709520367637177"]) (simp_all add: pow2_def)
  have s16: "unit_loss_run 16 = Some (4975617930474073 / 18014398509481984)"
    by (rule run_step[OF s15, where ea="- 2" and ma="4615329960284433" and pr="4615329960284433 / 18014398509481984"
          and eb="- 2" and mb="4975617930474073"]) (simp_all add: pow2_def)
  have s17: "unit_loss_run 17 = Some (5236393542054231 / 18014398509481984)"
    by (rule run_step[OF s16, where ea="- 2" and ma="4876105571864591" and pr="4876105571864591 / 18014398509481984"
          and eb="- 2" and mb="5236393542054231"]) (simp_all add: pow2_def)
  have s18: "unit_loss_run 18 = Some (2745976820701393 / 9007199254740992)"
    by (rule run_step[OF s17, where ea="- 2" and ma="5131665671213146" and pr="2565832835606573 / 9007199254740992"
          and eb="- 2" and mb="5491953641402786"]) (simp_all add: pow2_def)
  have s19: "unit_loss_run 19 = Some (2871201269382185 / 9007199254740992)"
    by (rule run_step[OF s18, where ea="- 2" and ma="5382114568574730" and pr="2691057284287365 / 9007199254740992"
          and eb="- 2" and mb="5742402538764370"]) (simp_all add: pow2_def)
  have s20: "unit_loss_run 20 = Some (2993921229089361 / 9007199254740992)"
    by (rule run_step[OF s19, where ea="- 2" and ma="5627554487989082" and pr="2813777243994541 / 9007199254740992"
          and eb="- 2" and mb="5987842458178722"]) (simp_all add: pow2_def)
  have s21: "unit_loss_run 21 = Some (6228373579204787 / 18014398509481984)"
    by (rule run_step[OF s20, where ea="- 2" and ma="5868085609015147" and pr="5868085609015147 / 18014398509481984"
          and eb="- 2" and mb="6228373579204787"]) (simp_all add: pow2_def)
  have s22: "unit_loss_run 22 = Some (6464094077810331 / 18014398509481984)"
    by (rule run_step[OF s21, where ea="- 2" and ma="6103806107620691" and pr="6103806107620691 / 18014398509481984"
          and eb="- 2" and mb="6464094077810331"]) (simp_all add: pow2_def)
  have s23: "unit_loss_run 23 = Some (1673775041610941 / 4503599627370496)"
    by (rule run_step[OF s22, where ea="- 2" and ma="6334812196254124" and pr="1583703049063531 / 4503599627370496"
          and eb="- 2" and mb="6695100166443764"]) (simp_all add: pow2_def)
  have s24: "unit_loss_run 24 = Some (6921486133304529 / 18014398509481984)"
    by (rule run_step[OF s23, where ea="- 2" and ma="6561198163114889" and pr="6561198163114889 / 18014398509481984"
          and eb="- 2" and mb="6921486133304529"]) (simp_all add: pow2_def)
  have s25: "unit_loss_run 25 = Some (3571672190414039 / 9007199254740992)"
    by (rule run_step[OF s24, where ea="- 2" and ma="6783056410638438" and pr="3391528205319219 / 9007199254740992"
          and eb="- 2" and mb="7143344380828078"]) (simp_all add: pow2_def)
  have s26: "unit_loss_run 26 = Some (1840191365850289 / 4503599627370496)"
    by (rule run_step[OF s25, where ea="- 2" and ma="7000477493211516" and pr="1750119373302879 / 4503599627370496"
          and eb="- 2" and mb="7360765463401156"]) (simp_all add: pow2_def)
  have s27: "unit_loss_run 27 = Some (7573838124322773 / 18014398509481984)"
    by (rule run_step[OF s26, where ea="- 2" and ma="7213550154133133" and pr="7213550154133133 / 18014398509481984"
          and eb="- 2" and mb="7573838124322773"]) (simp_all add: pow2_def)
  have s28: "unit_loss_run 28 = Some (7782649332025957 / 18014398509481984)"
    by (rule run_step[OF s27, where ea="- 2" and ma="7422361361836317" and pr="7422361361836317 / 18014398509481984"
          and eb="- 2" and mb="7782649332025957"]) (simp_all add: pow2_def)
  have s29: "unit_loss_run 29 = Some (3993642157787539 / 9007199254740992)"
    by (rule run_step[OF s28, where ea="- 2" and ma="7626996345385438" and pr="3813498172692719 / 9007199254740992"
          and eb="- 2" and mb="7987284315575078"]) (simp_all add: pow2_def)
  have s30: "unit_loss_run 30 = Some (255869581232913 / 562949953421312)"
    by (rule run_step[OF s29, where ea="- 2" and ma="7827538629263576" and pr="978442328657947 / 2251799813685248"
          and eb="- 2" and mb="8187826599453216"]) (simp_all add: pow2_def)
  have s31: "unit_loss_run 31 = Some (262011188676681 / 562949953421312)"
    by (rule run_step[OF s30, where ea="- 2" and ma="8024070067464152" and pr="1003008758433019 / 2251799813685248"
          and eb="- 2" and mb="8384358037653792"]) (simp_all add: pow2_def)
  have s32: "unit_loss_run 32 = Some (2144239711772589 / 4503599627370496)"
    by (rule run_step[OF s31, where ea="- 2" and ma="8216670876900716" and pr="2054167719225179 / 4503599627370496"
          and eb="- 2" and mb="8576958847090356"]) (simp_all add: pow2_def)
  have s33: "unit_loss_run 33 = Some (8765707640338189 / 18014398509481984)"
    by (rule run_step[OF s32, where ea="- 2" and ma="8405419670148549" and pr="8405419670148549 / 18014398509481984"
          and eb="- 2" and mb="8765707640338189"]) (simp_all add: pow2_def)
  have s34: "unit_loss_run 34 = Some (8950681457721065 / 18014398509481984)"
    by (rule run_step[OF s33, where ea="- 2" and ma="8590393487531425" and pr="8590393487531425 / 18014398509481984"
          and eb="- 2" and mb="8950681457721065"]) (simp_all add: pow2_def)
  have s35: "unit_loss_run 35 = Some (2282988949689071 / 4503599627370496)"
    by (rule run_step[OF s34, where ea="- 2" and ma="8771667828566644" and pr="2192916957141661 / 4503599627370496"
          and eb="- 1" and mb="4565977899378142"]) (simp_all add: pow2_def)
  have s36: "unit_loss_run 36 = Some (4654802326485399 / 9007199254740992)"
    by (rule run_step[OF s35, where ea="- 2" and ma="8949316682781158" and pr="4474658341390579 / 9007199254740992"
          and eb="- 1" and mb="4654802326485399"]) (simp_all add: pow2_def)
  have s37: "unit_loss_run 37 = Some (4741850265050511 / 9007199254740992)"
    by (rule run_step[OF s36, where ea="- 1" and ma="4561706279955691" and pr="4561706279955691 / 9007199254740992"
          and eb="- 1" and mb="4741850265050511"]) (simp_all add: pow2_def)
  have s38: "unit_loss_run 38 = Some (4827157244844321 / 9007199254740992)"
    by (rule run_step[OF s37, where ea="- 1" and ma="4647013259749501" and pr="4647013259749501 / 9007199254740992"
          and eb="- 1" and mb="4827157244844321"]) (simp_all add: pow2_def)
  have s39: "unit_loss_run 39 = Some (2455379042521127 / 4503599627370496)"
    by (rule run_step[OF s38, where ea="- 1" and ma="4730614099947434" and pr="2365307049973717 / 4503599627370496"
          and eb="- 1" and mb="4910758085042254"]) (simp_all add: pow2_def)
  have s40: "unit_loss_run 40 = Some (4992686908436229 / 9007199254740992)"
    by (rule run_step[OF s39, where ea="- 1" and ma="4812542923341409" and pr="4812542923341409 / 9007199254740992"
          and eb="- 1" and mb="4992686908436229"]) (simp_all add: pow2_def)
  have s41: "unit_loss_run 41 = Some (1268244288840581 / 2251799813685248)"
    by (rule run_step[OF s40, where ea="- 1" and ma="4892833170267504" and pr="305802073141719 / 562949953421312"
          and eb="- 1" and mb="5072977155362324"]) (simp_all add: pow2_def)
  have s42: "unit_loss_run 42 = Some (5151661597349897 / 9007199254740992)"
    by (rule run_step[OF s41, where ea="- 1" and ma="4971517612255077" and pr="4971517612255077 / 9007199254740992"
          and eb="- 1" and mb="5151661597349897"]) (simp_all add: pow2_def)
  have s43: "unit_loss_run 43 = Some (5228772350497719 / 9007199254740992)"
    by (rule run_step[OF s42, where ea="- 1" and ma="5048628365402899" and pr="5048628365402899 / 9007199254740992"
          and eb="- 1" and mb="5228772350497719"]) (simp_all add: pow2_def)
  have s44: "unit_loss_run 44 = Some (5304340888582585 / 9007199254740992)"
    by (rule run_step[OF s43, where ea="- 1" and ma="5124196903487765" and pr="5124196903487765 / 9007199254740992"
          and eb="- 1" and mb="5304340888582585"]) (simp_all add: pow2_def)
  have s45: "unit_loss_run 45 = Some (5378398055905753 / 9007199254740992)"
    by (rule run_step[OF s44, where ea="- 1" and ma="5198254070810933" and pr="5198254070810933 / 9007199254740992"
          and eb="- 1" and mb="5378398055905753"]) (simp_all add: pow2_def)
  have s46: "unit_loss_run 46 = Some (2725487039941229 / 4503599627370496)"
    by (rule run_step[OF s45, where ea="- 1" and ma="5270830094787638" and pr="2635415047393819 / 4503599627370496"
          and eb="- 1" and mb="5450974079882458"]) (simp_all add: pow2_def)
  have s47: "unit_loss_run 47 = Some (5522098583379629 / 9007199254740992)"
    by (rule run_step[OF s46, where ea="- 1" and ma="5341954598284809" and pr="5341954598284809 / 9007199254740992"
          and eb="- 1" and mb="5522098583379629"]) (simp_all add: pow2_def)
  have s48: "unit_loss_run 48 = Some (698975074600857 / 1125899906842624)"
    by (rule run_step[OF s47, where ea="- 1" and ma="5411656611712036" and pr="1352914152928009 / 2251799813685248"
          and eb="- 1" and mb="5591800596806856"]) (simp_all add: pow2_def)
  have s49: "unit_loss_run 49 = Some (5660108569965539 / 9007199254740992)"
    by (rule run_step[OF s48, where ea="- 1" and ma="5479964584870719" and pr="5479964584870719 / 9007199254740992"
          and eb="- 1" and mb="5660108569965539"]) (simp_all add: pow2_def)
  have s50: "unit_loss_run 50 = Some (715881297957631 / 1125899906842624)"
    by (rule run_step[OF s49, where ea="- 1" and ma="5546906398566228" and pr="1386726599641557 / 2251799813685248"
          and eb="- 1" and mb="5727050383661048"]) (simp_all add: pow2_def)
  have s51: "unit_loss_run 51 = Some (5792653361082647 / 9007199254740992)"
    by (rule run_step[OF s50, where ea="- 1" and ma="5612509375987827" and pr="5612509375987827 / 9007199254740992"
          and eb="- 1" and mb="5792653361082647"]) (simp_all add: pow2_def)
  have s52: "unit_loss_run 52 = Some (2928472139477907 / 4503599627370496)"
    by (rule run_step[OF s51, where ea="- 1" and ma="5676800293860994" and pr="2838400146930497 / 4503599627370496"
          and eb="- 1" and mb="5856944278955814"]) (simp_all add: pow2_def)
  have s53: "unit_loss_run 53 = Some (2959974689235759 / 4503599627370496)"
    by (rule run_step[OF s52, where ea="- 1" and ma="5739805393376698" and pr="2869902696688349 / 4503599627370496"
          and eb="- 1" and mb="5919949378471518"]) (simp_all add: pow2_def)
  have s54: "unit_loss_run 54 = Some (1495423593999227 / 2251799813685248)"
    by (rule run_step[OF s53, where ea="- 1" and ma="5801550390902088" and pr="725193798862761 / 1125899906842624"
          and eb="- 1" and mb="5981694375996908"]) (simp_all add: pow2_def)
  have s55: "unit_loss_run 55 = Some (3021102236785895 / 4503599627370496)"
    by (rule run_step[OF s54, where ea="- 1" and ma="5862060488476970" and pr="2931030244238485 / 4503599627370496"
          and eb="- 1" and mb="6042204473571790"]) (simp_all add: pow2_def)
  have s56: "unit_loss_run 56 = Some (3050752184597587 / 4503599627370496)"
    by (rule run_step[OF s55, where ea="- 1" and ma="5921360384100354" and pr="2960680192050177 / 4503599627370496"
          and eb="- 1" and mb="6101504369195174"]) (simp_all add: pow2_def)
  have s57: "unit_loss_run 57 = Some (3079809133453045 / 4503599627370496)"
    by (rule run_step[OF s56, where ea="- 1" and ma="5979474281811270" and pr="2989737140905635 / 4503599627370496"
          and eb="- 1" and mb="6159618266906090"]) (simp_all add: pow2_def)
  have s58: "unit_loss_run 58 = Some (1554142471665697 / 2251799813685248)"
    by (rule run_step[OF s57, where ea="- 1" and ma="6036425901567968" and pr="188638309423999 / 281474976710656"
          and eb="- 1" and mb="6216569886662788"]) (simp_all add: pow2_def)
  have s59: "unit_loss_run 59 = Some (196011952313261 / 281474976710656)"
    by (rule run_step[OF s58, where ea="- 1" and ma="6092238488929532" and pr="1523059622232383 / 2251799813685248"
          and eb="- 1" and mb="6272382474024352"]) (simp_all add: pow2_def)
  have s60: "unit_loss_run 60 = Some (6327078809638685 / 9007199254740992)"
    by (rule run_step[OF s59, where ea="- 1" and ma="6146934824543865" and pr="6146934824543865 / 9007199254740992"
          and eb="- 1" and mb="6327078809638685"]) (simp_all add: pow2_def)
  have s61: "unit_loss_run 61 = Some (6380681218540731 / 9007199254740992)"
    by (rule run_step[OF s60, where ea="- 1" and ma="6200537233445911" and pr="6200537233445911 / 9007199254740992"
          and eb="- 1" and mb="6380681218540731"]) (simp_all add: pow2_def)
  have s62: "unit_loss_run 62 = Some (201037861852023 / 281474976710656)"
    by (rule run_step[OF s61, where ea="- 1" and ma="6253067594169916" and pr="1563266898542479 / 2251799813685248"
          and eb="- 1" and mb="6433211579264736"]) (simp_all add: pow2_def)
  have s63: "unit_loss_run 63 = Some (6484691332774261 / 9007199254740992)"
    by (rule run_step[OF s62, where ea="- 1" and ma="6304547347679441" and pr="6304547347679441 / 9007199254740992"
          and eb="- 1" and mb="6484691332774261"]) (simp_all add: pow2_def)
  have s64: "unit_loss_run 64 = Some (1633785372803399 / 2251799813685248)"
    by (rule run_step[OF s63, where ea="- 1" and ma="6354997506118776" and pr="794374688264847 / 1125899906842624"
          and eb="- 1" and mb="6535141491213596"]) (simp_all add: pow2_def)
  have s65: "unit_loss_run 65 = Some (411536415405259 / 562949953421312)"
    by (rule run_step[OF s64, where ea="- 1" and ma="6404438661389324" and pr="1601109665347331 / 2251799813685248"
          and eb="- 1" and mb="6584582646484144"]) (simp_all add: pow2_def)
  have s66: "unit_loss_run 66 = Some (6633034978649281 / 9007199254740992)"
    by (rule run_step[OF s65, where ea="- 1" and ma="6452890993554461" and pr="6452890993554461 / 9007199254740992"
          and eb="- 1" and mb="6633034978649281"]) (simp_all add: pow2_def)
  have s67: "unit_loss_run 67 = Some (6680518264171115 / 9007199254740992)"
    by (rule run_step[OF s66, where ea="- 1" and ma="6500374279076295" and pr="6500374279076295 / 9007199254740992"
          and eb="- 1" and mb="6680518264171115"]) (simp_all add: pow2_def)
  have s68: "unit_loss_run 68 = Some (6727051883982513 / 9007199254740992)"
    by (rule run_step[OF s67, where ea="- 1" and ma="6546907898887693" and pr="6546907898887693 / 9007199254740992"
          and eb="- 1" and mb="6727051883982513"]) (simp_all add: pow2_def)
  have s69: "unit_loss_run 69 = Some (6772654831397683 / 9007199254740992)"
    by (rule run_step[OF s68, where ea="- 1" and ma="6592510846302863" and pr="6592510846302863 / 9007199254740992"
          and eb="- 1" and mb="6772654831397683"]) (simp_all add: pow2_def)
  have s70: "unit_loss_run 70 = Some (6817345719864549 / 9007199254740992)"
    by (rule run_step[OF s69, where ea="- 1" and ma="6637201734769729" and pr="6637201734769729 / 9007199254740992"
          and eb="- 1" and mb="6817345719864549"]) (simp_all add: pow2_def)
  have s71: "unit_loss_run 71 = Some (3430571395281039 / 4503599627370496)"
    by (rule run_step[OF s70, where ea="- 1" and ma="6680998805467258" and pr="3340499402733629 / 4503599627370496"
          and eb="- 1" and mb="6861142790562078"]) (simp_all add: pow2_def)
  have s72: "unit_loss_run 72 = Some (863007989980707 / 1125899906842624)"
    by (rule run_step[OF s71, where ea="- 1" and ma="6723919934750836" and pr="1680979983687709 / 2251799813685248"
          and eb="- 1" and mb="6904063919845656"]) (simp_all add: pow2_def)
  have s73: "unit_loss_run 73 = Some (6946126626543563 / 9007199254740992)"
    by (rule run_step[OF s72, where ea="- 1" and ma="6765982641448743" and pr="6765982641448743 / 9007199254740992"
          and eb="- 1" and mb="6946126626543563"]) (simp_all add: pow2_def)
  have s74: "unit_loss_run 74 = Some (873418509888439 / 1125899906842624)"
    by (rule run_step[OF s73, where ea="- 1" and ma="6807204094012692" and pr="1701801023503173 / 2251799813685248"
          and eb="- 1" and mb="6987348079107512"]) (simp_all add: pow2_def)
  have s75: "unit_loss_run 75 = Some (3513872551310091 / 4503599627370496)"
    by (rule run_step[OF s74, where ea="- 1" and ma="6847601117525362" and pr="3423800558762681 / 4503599627370496"
          and eb="- 1" and mb="7027745102620182"]) (simp_all add: pow2_def)
  have s76: "unit_loss_run 76 = Some (3533667092831299 / 4503599627370496)"
    by (rule run_step[OF s75, where ea="- 1" and ma="6887190200567778" and pr="3443595100283889 / 4503599627370496"
          and eb="- 1" and mb="7067334185662598"]) (simp_all add: pow2_def)
  have s77: "unit_loss_run 77 = Some (3553065743522083 / 4503599627370496)"
    by (rule run_step[OF s76, where ea="- 1" and ma="6925987501949346" and pr="3462993750974673 / 4503599627370496"
          and eb="- 1" and mb="7106131487044166"]) (simp_all add: pow2_def)
  have s78: "unit_loss_run 78 = Some (7144152842398103 / 9007199254740992)"
    by (rule run_step[OF s77, where ea="- 1" and ma="6964008857303283" and pr="6964008857303283 / 9007199254740992"
          and eb="- 1" and mb="7144152842398103"]) (simp_all add: pow2_def)
  have s79: "unit_loss_run 79 = Some (7181413770644961 / 9007199254740992)"
    by (rule run_step[OF s78, where ea="- 1" and ma="7001269785550141" and pr="7001269785550141 / 9007199254740992"
          and eb="- 1" and mb="7181413770644961"]) (simp_all add: pow2_def)
  have s80: "unit_loss_run 80 = Some (3608964740163441 / 4503599627370496)"
    by (rule run_step[OF s79, where ea="- 1" and ma="7037785495232062" and pr="3518892747616031 / 4503599627370496"
          and eb="- 1" and mb="7217929480326882"]) (simp_all add: pow2_def)
  have s81: "unit_loss_run 81 = Some (1813428718953791 / 2251799813685248)"
    by (rule run_step[OF s80, where ea="- 1" and ma="7073570890720344" and pr="884196361340043 / 1125899906842624"
          and eb="- 1" and mb="7253714875815164"]) (simp_all add: pow2_def)
  have s82: "unit_loss_run 82 = Some (7288784563393681 / 9007199254740992)"
    by (rule run_step[OF s81, where ea="- 1" and ma="7108640578298861" and pr="7108640578298861 / 9007199254740992"
          and eb="- 1" and mb="7288784563393681"]) (simp_all add: pow2_def)
  have s83: "unit_loss_run 83 = Some (7323152857220627 / 9007199254740992)"
    by (rule run_step[OF s82, where ea="- 1" and ma="7143008872125807" and pr="7143008872125807 / 9007199254740992"
          and eb="- 1" and mb="7323152857220627"]) (simp_all add: pow2_def)
  have s84: "unit_loss_run 84 = Some (3678416892585517 / 4503599627370496)"
    by (rule run_step[OF s83, where ea="- 1" and ma="7176689800076214" and pr="3588344900038107 / 4503599627370496"
          and eb="- 1" and mb="7356833785171034"]) (simp_all add: pow2_def)
  have s85: "unit_loss_run 85 = Some (7389841094562433 / 9007199254740992)"
    by (rule run_step[OF s84, where ea="- 1" and ma="7209697109467613" and pr="7209697109467613 / 9007199254740992"
          and eb="- 1" and mb="7389841094562433"]) (simp_all add: pow2_def)
  have s86: "unit_loss_run 86 = Some (1855547064441501 / 2251799813685248)"
    by (rule run_step[OF s85, where ea="- 1" and ma="7242044272671184" and pr="452627767041949 / 562949953421312"
          and eb="- 1" and mb="7422188257766004"]) (simp_all add: pow2_def)
  have s87: "unit_loss_run 87 = Some (232934014928297 / 281474976710656)"
    by (rule run_step[OF s86, where ea="- 1" and ma="7273744492610684" and pr="1818436123152671 / 2251799813685248"
          and eb="- 1" and mb="7453888477705504"]) (simp_all add: pow2_def)
  have s88: "unit_loss_run 88 = Some (3742477346623107 / 4503599627370496)"
    by (rule run_step[OF s87, where ea="- 1" and ma="7304810708151394" and pr="3652405354075697 / 4503599627370496"
          and eb="- 1" and mb="7484954693246214"]) (simp_all add: pow2_def)
  have s89: "unit_loss_run 89 = Some (3757699792238055 / 4503599627370496)"
    by (rule run_step[OF s88, where ea="- 1" and ma="7335255599381290" and pr="3667627799690645 / 4503599627370496"
          and eb="- 1" and mb="7515399584476110"]) (simp_all add: pow2_def)
  have s90: "unit_loss_run 90 = Some (117894305904397 / 140737488355328)"
    by (rule run_step[OF s89, where ea="- 1" and ma="7365091592786588" and pr="1841272898196647 / 2251799813685248"
          and eb="- 1" and mb="7545235577881408"]) (simp_all add: pow2_def)
  have s91: "unit_loss_run 91 = Some (946809356427325 / 1125899906842624)"
    by (rule run_step[OF s90, where ea="- 1" and ma="7394330866323780" and pr="1848582716580945 / 2251799813685248"
          and eb="- 1" and mb="7574474851418600"]) (simp_all add: pow2_def)
  have s92: "unit_loss_run 92 = Some (950391167435631 / 1125899906842624)"
    by (rule run_step[OF s91, where ea="- 1" and ma="7422985354390228" and pr="1855746338597557 / 2251799813685248"
          and eb="- 1" and mb="7603129339485048"]) (simp_all add: pow2_def)
  have s93: "unit_loss_run 93 = Some (7631210737790167 / 9007199254740992)"
    by (rule run_step[OF s92, where ea="- 1" and ma="7451066752695347" and pr="7451066752695347 / 9007199254740992"
          and eb="- 1" and mb="7631210737790167"]) (simp_all add: pow2_def)
  have s94: "unit_loss_run 94 = Some (239335328379037 / 281474976710656)"
    by (rule run_step[OF s93, where ea="- 1" and ma="7478586523034364" and pr="1869646630758591 / 2251799813685248"
          and eb="- 1" and mb="7658730508129184"]) (simp_all add: pow2_def)
  have s95: "unit_loss_run 95 = Some (1921424970765355 / 2251799813685248)"
    by (rule run_step[OF s94, where ea="- 1" and ma="7505555897966600" and pr="938194487245825 / 1125899906842624"
          and eb="- 1" and mb="7685699883061420"]) (simp_all add: pow2_def)
  have s96: "unit_loss_run 96 = Some (7712129870495011 / 9007199254740992)"
    by (rule run_step[OF s95, where ea="- 1" and ma="7531985885400191" and pr="7531985885400191 / 9007199254740992"
          and eb="- 1" and mb="7712129870495011"]) (simp_all add: pow2_def)
  have s97: "unit_loss_run 97 = Some (7738031258179931 / 9007199254740992)"
    by (rule run_step[OF s96, where ea="- 1" and ma="7557887273085111" and pr="7557887273085111 / 9007199254740992"
          and eb="- 1" and mb="7738031258179931"]) (simp_all add: pow2_def)
  have s98: "unit_loss_run 98 = Some (485213413631947 / 562949953421312)"
    by (rule run_step[OF s97, where ea="- 1" and ma="7583270633016332" and pr="1895817658254083 / 2251799813685248"
          and eb="- 1" and mb="7763414618111152"]) (simp_all add: pow2_def)
  have s99: "unit_loss_run 99 = Some (7788290310843749 / 9007199254740992)"
    by (rule run_step[OF s98, where ea="- 1" and ma="7608146325748929" and pr="7608146325748929 / 9007199254740992"
          and eb="- 1" and mb="7788290310843749"]) (simp_all add: pow2_def)
  have s100: "unit_loss_run 100 = Some (3906334244860847 / 4503599627370496)"
    by (rule run_step[OF s99, where ea="- 1" and ma="7632524504626874" and pr="3816262252313437 / 4503599627370496"
          and eb="- 1" and mb="7812668489721694"]) (simp_all add: pow2_def)
  show ?thesis by (rule s100)
qed

section \<open>Facts about the training loop\<close>

lemma cb_fire_fired:
  "fired (cb_fire h a s) = fired s @ [(h, map_option (\<lambda>(e, p). (e, name p)) a)]"
  by (simp add: cb_fire_def split: prod.splits)

lemma cb_fire_stop: "stop (self s) \<Longrightarrow> stop (self (cb_fire h a s))"
  by (simp add: cb_fire_def split: prod.splits)

lemma cb_fire_stepper: "stepper (self (cb_fire h a s)) = stepper (self s)"
  by (simp add: cb_fire_def split: prod.splits)

lemma cb_fire_alpha: "alpha (self (cb_fire h a s)) = alpha (self s)"
  by (simp add: cb_fire_def split: prod.splits)

lemma batch_loop_props:
  assumes "batch_loop step a e tr ds p s = (p', s')"
  shows "fired s' = fired s @ concat (replicate (length ds)
             [(OnBatchStart, Some (e, name p)), (OnBatchEnd, Some (e, name p))])
       \<and> name p' = name p \<and> dataset p' = dataset p
       \<and> batch_num p' = batch_num p + int (length ds)
       \<and> (stop (self s) \<longrightarrow> stop (self s'))
       \<and> alpha (self s') = alpha (self s)"
  using assms
proof (induction ds arbitrary: p s)
  case Nil
  then show ?case by simp
next
  case (Cons d ds)
  obtain x y where d: "d = (x, y)" by (cases d)
  define p1 where "p1 = p \<lparr> batch_num := batch_num p + 1 \<rparr>"
  define s1 where "s1 = cb_fire OnBatchStart (Some (e, p1)) s"
  obtain loss stp where st: "step x y tr (stepper (self s1)) = (loss, stp)"
    by (cases "step x y tr (stepper (self s1))")
  define s2 where "s2 = s1 \<lparr> self := (self s1) \<lparr> stepper := stp \<rparr> \<rparr>"
  define p2 where "p2 = p1 \<lparr> avg_loss :=
      fadd (fmul (avg_loss p1) a) (fmul loss (fsub (Some 1) a)) \<rparr>"
  define s3 where "s3 = cb_fire OnBatchEnd (Some (e, p2)) s2"
  from Cons.prems have rest: "batch_loop step a e tr ds p2 s3 = (p', s')"
    by (simp add: d Let_def st p1_def[symmetric] s1_def[symmetric] s2_def[symmetric]
          p2_def[symmetric] s3_def[symmetric])
  note ih = Cons.IH[OF rest]
  have f3: "fired s3 = fired s @ [(OnBatchStart, Some (e, name p)), (OnBatchEnd, Some (e, name p))]"
    by (simp add: s3_def s2_def s1_def p2_def p1_def cb_fire_fired)
  have st3: "stop (self s) \<longrightarrow> stop (self s3)"
    by (simp add: s3_def s2_def s1_def cb_fire_def split: prod.splits)
  have al3: "alpha (self s3) = alpha (self s)"
    by (simp add: s3_def s2_def s1_def cb_fire_def split: prod.splits)
  have p2f: "name p2 = name p" "dataset p2 = dataset p" "batch_num p2 = batch_num p + 1"
    by (simp_all add: p2_def p1_def)
  from ih f3 st3 al3 p2f show ?case by simp
qed

lemma phase_loop_props:
  assumes "phase_loop step a e ps s = (ps', s')"
  shows "fired s' = fired s @ concat (map (\<lambda>p. phase_events e (name p) (length (dataset p))) ps)
       \<and> map name ps' = map name ps \<and> map dataset ps' = map dataset ps
       \<and> map batch_num ps' = map (\<lambda>p. batch_num p + int (length (dataset p))) ps
       \<and> (stop (self s) \<longrightarrow> stop (self s'))
       \<and> alpha (self s') = alpha (self s)"
  using assms
proof (induction ps arbitrary: s ps' s')
  case Nil
  then show ?case by simp
next
  case (Cons p ps)
  define s1 where "s1 = cb_fire OnEpochStart (Some (e, p)) s"
  obtain p' s2 where bl: "batch_loop step a e (name p = ''train'') (dataset p) p s1 = (p', s2)"
    by (cases "batch_loop step a e (name p = ''train'') (dataset p) p s1")
  define s3 where "s3 = cb_fire OnEpochEnd (Some (e, p')) s2"
  obtain rest' s4 where pl: "phase_loop step a e ps s3 = (rest', s4)"
    by (cases "phase_loop step a e ps s3")
  from Cons.prems have res: "ps' = p' # rest'" "s' = s4"
    by (simp_all add: Let_def s1_def[symmetric] bl s3_def[symmetric] pl)
  note b = batch_loop_props[OF bl]
  note ih = Cons.IH[OF pl]
  have f1: "fired s1 = fired s @ [(OnEpochStart, Some (e, name p))]"
    by (simp add: s1_def cb_fire_fired)
  have f3: "fired s3 = fired s2 @ [(OnEpochEnd, Some (e, name p))]"
    using b by (simp add: s3_def cb_fire_fired)
  have stp: "stop (self s) \<longrightarrow> stop (self s3)"
    using b by (simp add: s3_def s1_def cb_fire_stop)
  have al: "alpha (self s3) = alpha (self s)"
    using b by (simp add: s3_def s1_def cb_fire_alpha)
  from ih b f1 f3 stp al res show ?case
    by (simp add: phase_events_def)
qed

lemma epoch_loop_stopped: "stop (self s) \<Longrightarrow> epoch_loop step a es ps s = (ps, s)"
  by (cases es) simp_all

lemma epoch_loop_props:
  assumes "epoch_loop step a es ps s = (ps', s')"
  shows "(\<exists>evs. fired s' = fired s @ evs
             \<and> (\<forall>ev \<in> set evs. \<exists>e \<in> set es. \<exists>n. snd ev = Some (e, n)))
       \<and> map name ps' = map name ps \<and> map dataset ps' = map dataset ps
       \<and> (stop (self s) \<longrightarrow> stop (self s'))
       \<and> alpha (self s') = alpha (self s)"
  using assms
proof (induction es arbitrary: ps s)
  case Nil
  then show ?case by simp
next
  case (Cons e es)
  show ?case
  proof (cases "stop (self s)")
    case True
    with Cons.prems show ?thesis by simp
  next
    case False
    obtain ps1 s1 where pl: "phase_loop step a e ps s = (ps1, s1)"
      by (cases "phase_loop step a e ps s")
    with False Cons.prems have rest: "epoch_loop step a es ps1 s1 = (ps', s')" by simp
    note p = phase_loop_props[OF pl]
    from Cons.IH[OF rest] obtain evs where
      evs: "fired s' = fired s1 @ evs" "\<forall>ev \<in> set evs. \<exists>e \<in> set es. \<exists>n. snd ev = Some (e, n)"
      and others: "map name ps' = map name ps1" "map dataset ps' = map dataset ps1"
        "stop (self s1) \<longrightarrow> stop (self s')" "alpha (self s') = alpha (self s1)"
      by blast
    let ?now = "concat (map (\<lambda>p. phase_events e (name p) (length (dataset p))) ps)"
    have now: "\<forall>ev \<in> set ?now. \<exists>n. snd ev = Some (e, n)"
      by (auto simp: phase_events_def)
    have "fired s' = fired s @ (?now @ evs)" using p evs(1) by simp
    moreover have "\<forall>ev \<in> set (?now @ evs). \<exists>e' \<in> set (e # es). \<exists>n. snd ev = Some (e', n)"
      using now evs(2) by auto
    ultimately have "\<exists>evs. fired s' = fired s @ evs
             \<and> (\<forall>ev \<in> set evs. \<exists>e' \<in> set (e # es). \<exists>n. snd ev = Some (e', n))"
      by blast
    with p others False show ?thesis by simp
  qed
qed

lemma epoch_loop_append:
  "epoch_loop step a (xs @ ys) ps s =
     (case epoch_loop step a xs ps s of (ps', s') \<Rightarrow> epoch_loop step a ys ps' s')"
proof (induction xs arbitrary: ps s)
  case Nil
  then show ?case by simp
next
  case (Cons e xs)
  show ?case
  proof (cases "stop (self s)")
    case True
    then show ?thesis by (simp add: epoch_loop_stopped)
  next
    case False
    then show ?thesis using Cons.IH by (simp split: prod.splits)
  qed
qed

lemma phase_loop_Cons:
  assumes "batch_loop step a e (name p = ''train'') (dataset p) p
             (cb_fire OnEpochStart (Some (e, p)) s) = (p', s2)"
    and "phase_loop step a e ps (cb_fire OnEpochEnd (Some (e, p')) s2) = (rest, s4)"
  shows "phase_loop step a e (p # ps) s = (p' # rest, s4)"
  using assms by (simp add: Let_def)

subsection \<open>The running losses of a run\<close>

lemma never_stops_Cons:
  "never_stops ((f, c) # rest) \<longleftrightarrow>
     (\<forall>h a c0. case f h a c0 of None \<Rightarrow> True | Some (c1, b) \<Rightarrow> \<not> b) \<and> never_stops rest"
  by (auto simp: never_stops_def)

lemma dispatch_never_stops:
  assumes "never_stops obs" "dispatch h a obs = (obs', sg)"
  shows "\<not> sg \<and> never_stops obs'"
  using assms
proof (induction obs arbitrary: obs' sg)
  case Nil
  then show ?case by (simp add: never_stops_def)
next
  case (Cons fc rest)
  obtain f c where fc: "fc = (f, c)" by (cases fc)
  obtain rest' s where d: "dispatch h a rest = (rest', s)" by (cases "dispatch h a rest")
  from Cons.prems(1) have q: "\<forall>h a c0. case f h a c0 of None \<Rightarrow> True | Some (c1, b) \<Rightarrow> \<not> b"
    and nr: "never_stops rest" by (simp_all add: fc never_stops_Cons)
  from Cons.IH[OF nr d] have ih: "\<not> s" "never_stops rest'" by simp_all
  show ?case
  proof (cases "f h a c")
    case None
    with Cons.prems(2) d ih q show ?thesis by (auto simp: fc never_stops_Cons)
  next
    case (Some cb)
    obtain c' b where cb: "cb = (c', b)" by (cases cb)
    from q[rule_format, of h a c] Some cb have "\<not> b" by simp
    with Cons.prems(2) d ih q Some cb show ?thesis by (auto simp: fc never_stops_Cons)
  qed
qed

lemma cb_fire_quiet:
  assumes "never_stops (cb s)"
  shows "never_stops (cb (cb_fire h a s)) \<and> stop (self (cb_fire h a s)) = stop (self s)"
proof -
  obtain obs sg where d: "dispatch h a (cb s) = (obs, sg)" by (cases "dispatch h a (cb s)")
  from dispatch_never_stops[OF assms d] d show ?thesis by (simp add: cb_fire_def)
qed

lemma batch_loop_losses:
  assumes "batch_loop step a e tr ds p s = (p', s')"
  shows "avg_loss p' = foldl (ema a) (avg_loss p) (fst (step_losses step tr ds (stepper (self s))))
       \<and> stepper (self s') = snd (step_losses step tr ds (stepper (self s)))
       \<and> (never_stops (cb s) \<longrightarrow> never_stops (cb s') \<and> stop (self s') = stop (self s))"
  using assms
proof (induction ds arbitrary: p s)
  case Nil
  then show ?case by simp
next
  case (Cons d ds)
  obtain x y where d: "d = (x, y)" by (cases d)
  define p1 where "p1 = p \<lparr> batch_num := batch_num p + 1 \<rparr>"
  define s1 where "s1 = cb_fire OnBatchStart (Some (e, p1)) s"
  obtain loss stp where st: "step x y tr (stepper (self s1)) = (loss, stp)"
    by (cases "step x y tr (stepper (self s1))")
  define s2 where "s2 = s1 \<lparr> self := (self s1) \<lparr> stepper := stp \<rparr> \<rparr>"
  define p2 where "p2 = p1 \<lparr> avg_loss :=
      fadd (fmul (avg_loss p1) a) (fmul loss (fsub (Some 1) a)) \<rparr>"
  define s3 where "s3 = cb_fire OnBatchEnd (Some (e, p2)) s2"
  from Cons.prems have rest: "batch_loop step a e tr ds p2 s3 = (p', s')"
    by (simp add: d Let_def st p1_def[symmetric] s1_def[symmetric] s2_def[symmetric]
          p2_def[symmetric] s3_def[symmetric])
  note ih = Cons.IH[OF rest]
  have st': "step x y tr (stepper (self s)) = (loss, stp)"
    using st by (simp add: s1_def cb_fire_stepper)
  have stp3: "stepper (self s3) = stp" by (simp add: s3_def s2_def cb_fire_stepper)
  have a2: "avg_loss p2 = ema a (avg_loss p) loss" by (simp add: p2_def p1_def ema_def)
  have quiet: "never_stops (cb s) \<longrightarrow> never_stops (cb s3) \<and> stop (self s3) = stop (self s)"
  proof
    assume n: "never_stops (cb s)"
    from cb_fire_quiet[OF n, of OnBatchStart "Some (e, p1)"]
    have n1: "never_stops (cb s1)" "stop (self s1) = stop (self s)" by (simp_all add: s1_def)
    then have n2: "never_stops (cb s2)" "stop (self s2) = stop (self s)" by (simp_all add: s2_def)
    from cb_fire_quiet[OF n2(1), of OnBatchEnd "Some (e, p2)"] n2(2)
    show "never_stops (cb s3) \<and> stop (self s3) = stop (self s)" by (simp add: s3_def)
  qed
  obtain ls st2 where sl: "step_losses step tr ds stp = (ls, st2)"
    by (cases "step_losses step tr ds stp")
  from ih stp3 a2 quiet sl st' show ?case by (simp add: d)
qed

lemma step_losses_const:
  assumes "\<forall>x y t st. fst (step x y t st) = c"
  shows "fst (step_losses step tr ds st) = replicate (length ds) c"
proof (induction ds arbitrary: st)
  case Nil
  then show ?case by simp
next
  case (Cons d ds)
  obtain x y where d: "d = (x, y)" by (cases d)
  obtain l st1 where s: "step x y tr st = (l, st1)" by (cases "step x y tr st")
  with assms have "l = c" by (metis fst_conv)
  moreover obtain ls st2 where r: "step_losses step tr ds st1 = (ls, st2)"
    by (cases "step_losses step tr ds st1")
  ultimately show ?case using Cons.IH[of st1] s by (simp add: d)
qed

lemma phase_loop_losses:
  assumes "phase_loop step a e [pt, pv] s = (ps', s')"
    and "name pt = ''train''" "name pv = ''valid''"
  shows "\<exists>pt' pv'. ps' = [pt', pv']
       \<and> name pt' = ''train'' \<and> name pv' = ''valid''
       \<and> dataset pt' = dataset pt \<and> dataset pv' = dataset pv
       \<and> (avg_loss pt', avg_loss pv', stepper (self s'))
           = epoch_ref step a (dataset pt) (dataset pv) (avg_loss pt, avg_loss pv, stepper (self s))
       \<and> (never_stops (cb s) \<longrightarrow> never_stops (cb s') \<and> stop (self s') = stop (self s))"
proof -
  define s1 where "s1 = cb_fire OnEpochStart (Some (e, pt)) s"
  obtain pt' s2 where bl: "batch_loop step a e True (dataset pt) pt s1 = (pt', s2)"
    by (cases "batch_loop step a e True (dataset pt) pt s1")
  define s3 where "s3 = cb_fire OnEpochEnd (Some (e, pt')) s2"
  define s4 where "s4 = cb_fire OnEpochStart (Some (e, pv)) s3"
  obtain pv' s5 where bv: "batch_loop step a e False (dataset pv) pv s4 = (pv', s5)"
    by (cases "batch_loop step a e False (dataset pv) pv s4")
  define s6 where "s6 = cb_fire OnEpochEnd (Some (e, pv')) s5"
  from assms have res: "ps' = [pt', pv']" "s' = s6"
    by (simp_all add: Let_def s1_def[symmetric] bl s3_def[symmetric] s4_def[symmetric] bv
          s6_def[symmetric])
  note lt = batch_loop_losses[OF bl] and lv = batch_loop_losses[OF bv]
  note pt = batch_loop_props[OF bl] and pv = batch_loop_props[OF bv]
  have st1: "stepper (self s1) = stepper (self s)" by (simp add: s1_def cb_fire_stepper)
  have st4: "stepper (self s4) = stepper (self s2)" by (simp add: s4_def s3_def cb_fire_stepper)
  have st6: "stepper (self s6) = stepper (self s5)" by (simp add: s6_def cb_fire_stepper)
  have ref: "(avg_loss pt', avg_loss pv', stepper (self s6))
      = epoch_ref step a (dataset pt) (dataset pv) (avg_loss pt, avg_loss pv, stepper (self s))"
    using lt lv st1 st4 st6 by (simp add: epoch_ref_def split: prod.splits)
  have quiet: "never_stops (cb s) \<longrightarrow> never_stops (cb s6) \<and> stop (self s6) = stop (self s)"
  proof
    assume n: "never_stops (cb s)"
    from cb_fire_quiet[OF n, of OnEpochStart "Some (e, pt)"]
    have n1: "never_stops (cb s1)" "stop (self s1) = stop (self s)" by (simp_all add: s1_def)
    with lt have n2: "never_stops (cb s2)" "stop (self s2) = stop (self s)" by simp_all
    from cb_fire_quiet[OF n2(1), of OnEpochEnd "Some (e, pt')"] n2(2)
    have n3: "never_stops (cb s3)" "stop (self s3) = stop (self s)" by (simp_all add: s3_def)
    from cb_fire_quiet[OF n3(1), of OnEpochStart "Some (e, pv)"] n3(2)
    have n4: "never_stops (cb s4)" "stop (self s4) = stop (self s)" by (simp_all add: s4_def)
    with lv have n5: "never_stops (cb s5)" "stop (self s5) = stop (self s)" by simp_all
    from cb_fire_quiet[OF n5(1), of OnEpochEnd "Some (e, pv')"] n5(2)
    show "never_stops (cb s6) \<and> stop (self s6) = stop (self s)" by (simp add: s6_def)
  qed
  from res ref quiet pt pv assms(2,3) show ?thesis by simp
qed

lemma epoch_loop_losses:
  assumes "epoch_loop step a es [pt, pv] s = (ps', s')"
    and "name pt = ''train''" "name pv = ''valid''"
    and "never_stops (cb s)" "\<not> stop (self s)"
  shows "\<exists>pt' pv'. ps' = [pt', pv']
       \<and> name pt' = ''train'' \<and> name pv' = ''valid''
       \<and> (avg_loss pt', avg_loss pv', stepper (self s'))
           = (epoch_ref step a (dataset pt) (dataset pv) ^^ length es)
               (avg_loss pt, avg_loss pv, stepper (self s))
       \<and> \<not> stop (self s')"
  using assms
proof (induction es arbitrary: pt pv s)
  case Nil
  then show ?case by auto
next
  case (Cons e es)
  obtain ps1 s1 where pl: "phase_loop step a e [pt, pv] s = (ps1, s1)"
    by (cases "phase_loop step a e [pt, pv] s")
  from phase_loop_losses[OF pl Cons.prems(2,3)] Cons.prems(4) obtain pt1 pv1 where
    ps1: "ps1 = [pt1, pv1]" and nm: "name pt1 = ''train''" "name pv1 = ''valid''"
    and ds: "dataset pt1 = dataset pt" "dataset pv1 = dataset pv"
    and ref: "(avg_loss pt1, avg_loss pv1, stepper (self s1))
           = epoch_ref step a (dataset pt) (dataset pv) (avg_loss pt, avg_loss pv, stepper (self s))"
    and q: "never_stops (cb s1)" "stop (self s1) = stop (self s)"
    by blast
  from Cons.prems(1,5) pl ps1 have rest: "epoch_loop step a es [pt1, pv1] s1 = (ps', s')" by simp
  from q Cons.prems(5) have ns: "\<not> stop (self s1)" by simp
  from Cons.IH[OF rest nm q(1) ns] ds ref show ?case
    by (simp add: funpow_swap1)
qed

lemma Loop_run_losses:
  assumes "never_stops callbacks" "\<not> stop l"
  shows "\<exists>pt pv s'. Loop_run step l train_data valid_data n callbacks = ([pt, pv], s')
       \<and> name pt = ''train'' \<and> name pv = ''valid''
       \<and> (avg_loss pt, avg_loss pv, stepper (self s'))
           = (epoch_ref step (alpha l) train_data valid_data ^^ nat n) (Some 0, Some 0, stepper l)"
proof -
  define s0 where "s0 = cb_fire OnTrainingStart None \<lparr> self = l, cb = callbacks, fired = [] \<rparr>"
  define p0 where "p0 = Phase_init ''train'' train_data"
  define q0 where "q0 = Phase_init ''valid'' valid_data"
  from cb_fire_quiet[of "\<lparr> self = l, cb = callbacks, fired = [] \<rparr>" OnTrainingStart None] assms
  have q: "never_stops (cb s0)" "\<not> stop (self s0)" by (simp_all add: s0_def)
  have a: "alpha (self s0) = alpha l" and st: "stepper (self s0) = stepper l"
    by (simp_all add: s0_def cb_fire_alpha cb_fire_stepper)
  obtain ps' s1 where el: "epoch_loop step (alpha l) [0..<nat n] [p0, q0] s0 = (ps', s1)"
    by (cases "epoch_loop step (alpha l) [0..<nat n] [p0, q0] s0")
  have nm: "name p0 = ''train''" "name q0 = ''valid''" by (simp_all add: p0_def q0_def Phase_init_def)
  from epoch_loop_losses[OF el nm q] obtain pt pv where
    r: "ps' = [pt, pv]" "name pt = ''train''" "name pv = ''valid''"
      "(avg_loss pt, avg_loss pv, stepper (self s1))
         = (epoch_ref step (alpha l) (dataset p0) (dataset q0) ^^ length [0..<nat n])
             (avg_loss p0, avg_loss q0, stepper (self s0))"
    by blast
  have run: "Loop_run step l train_data valid_data n callbacks = ([pt, pv], cb_fire OnTrainingEnd None s1)"
    using el r(1)
    by (simp add: Loop_run_def Let_def s0_def[symmetric] p0_def[symmetric] q0_def[symmetric] a)
  have "(avg_loss pt, avg_loss pv, stepper (self (cb_fire OnTrainingEnd None s1)))
      = (epoch_ref step (alpha l) train_data valid_data ^^ nat n) (Some 0, Some 0, stepper l)"
    using r(4) st by (simp add: cb_fire_stepper p0_def q0_def Phase_init_def)
  with run r(2,3) show ?thesis by blast
qed

lemma batch_loop_one:
  assumes "batch_loop step a e tr [(x, y)] p s = (p', s')"
  shows "avg_loss p' = fadd (fmul (avg_loss p) a)
                          (fmul (fst (step x y tr (stepper (self s)))) (fsub (Some 1) a))"
proof -
  obtain l st1 where st: "step x y tr (stepper (self s)) = (l, st1)"
    by (cases "step x y tr (stepper (self s))")
  with batch_loop_losses[OF assms] show ?thesis by (simp add: ema_def)
qed

lemma unit_loss_scenario:
  assumes "never_stops callbacks" "\<forall>x y t st. fst (step x y t st) = Some 1"
    and "length train_data = 100"
  shows "\<exists>pt pv s'. Loop_run step (Loop_init stp None) train_data valid_data 1 callbacks
             = ([pt, pv], s')
           \<and> name pt = ''train'' \<and> name pv = ''valid''
           \<and> avg_loss pt = Some (3906334244860847 / 4503599627370496)
           \<and> avg_loss pv = unit_loss_run (length valid_data)"
proof -
  define l where "l = Loop_init stp None"
  have ns: "\<not> stop l" and al: "alpha l = fl (98 / 100)" and sl: "stepper l = stp"
    unfolding l_def Loop_init_def by simp_all
  from Loop_run_losses[OF assms(1) ns, of step train_data valid_data 1] obtain pt pv s' where
    run: "Loop_run step l train_data valid_data 1 callbacks = ([pt, pv], s')"
    and nm: "name pt = ''train''" "name pv = ''valid''"
    and ref: "(avg_loss pt, avg_loss pv, stepper (self s'))
       = (epoch_ref step (alpha l) train_data valid_data ^^ nat 1) (Some 0, Some 0, stepper l)"
    by blast
  obtain lt st1 where t: "step_losses step True train_data stp = (lt, st1)"
    by (cases "step_losses step True train_data stp")
  obtain lv st2 where v: "step_losses step False valid_data st1 = (lv, st2)"
    by (cases "step_losses step False valid_data st1")
  from step_losses_const[OF assms(2), of True train_data stp] t assms(3)
  have lt: "lt = replicate 100 (Some 1)" by simp
  from step_losses_const[OF assms(2), of False valid_data st1] v
  have lv: "lv = replicate (length valid_data) (Some 1)" by simp
  from ref have "avg_loss pt = foldl (ema (fl (98 / 100))) (Some 0) lt"
    and "avg_loss pv = foldl (ema (fl (98 / 100))) (Some 0) lv"
    unfolding al sl by (simp_all add: epoch_ref_def t v)
  then have "avg_loss pt = unit_loss_run 100" "avg_loss pv = unit_loss_run (length valid_data)"
    unfolding lt lv unit_loss_run_def by simp_all
  with run nm show ?thesis unfolding l_def by (simp add: unit_loss_run_100)
qed

lemma never_stops_watcher: "never_stops [(watcher, c)]"
  by (simp add: never_stops_def watcher_def)

lemma demo_step_unit: "\<forall>x y t st. fst (demo_step x y t st) = Some 1"
  by (simp add: demo_step_def)

section \<open>The claims about the training loop\<close>

text \<open>
  C4. Let the run reach the top of epoch \<open>k\<close> with the stop flag clear, and let the
  flag be set when the phases of epoch \<open>k\<close> are over (a callback requested the stop
  in one of them). Then epoch \<open>k\<close> fired the events of both phases in full, the
  training phase and then the validation phase, each with one start and one end event
  per batch of its data source, and each phase counted all its batches; the run ends
  there with the training-end event, and no event of a later epoch was fired.
\<close>

theorem stop_checked_between_epochs:
  assumes "k < nat epochs"
    and "epoch_loop step (alpha l) [0..<k]
           [Phase_init ''train'' train_data, Phase_init ''valid'' valid_data]
           (cb_fire OnTrainingStart None \<lparr> self = l, cb = callbacks, fired = [] \<rparr>) = (ps, s)"
    and "\<not> stop (self s)"
    and "phase_loop step (alpha l) k ps s = (ps', s')"
    and "stop (self s')"
  shows "Loop_run step l train_data valid_data epochs callbacks = (ps', cb_fire OnTrainingEnd None s')
       \<and> fired s' = fired s @ phase_events k ''train'' (length train_data)
                             @ phase_events k ''valid'' (length valid_data)
       \<and> map batch_num ps' = [batch_num (ps ! 0) + int (length train_data),
                               batch_num (ps ! 1) + int (length valid_data)]
       \<and> (\<forall>ev \<in> set (fired (snd (Loop_run step l train_data valid_data epochs callbacks))).
             \<forall>e n. snd ev = Some (e, n) \<longrightarrow> e \<le> k)"
proof -
  define s0 where "s0 = cb_fire OnTrainingStart None \<lparr> self = l, cb = callbacks, fired = [] \<rparr>"
  define ps0 where "ps0 = [Phase_init ''train'' train_data, Phase_init ''valid'' valid_data]"
  have a0: "alpha (self s0) = alpha l" by (simp add: s0_def cb_fire_alpha)
  have e1: "epoch_loop step (alpha l) [0..<k] ps0 s0 = (ps, s)"
    using assms(2) by (simp add: s0_def ps0_def)
  have split: "[0..<nat epochs] = [0..<k] @ k # [Suc k..<nat epochs]"
    using assms(1) by (metis le_add1 less_imp_add_positive upt_add_eq_append upt_conv_Cons zero_le)
  have "epoch_loop step (alpha l) [0..<nat epochs] ps0 s0
      = epoch_loop step (alpha l) (k # [Suc k..<nat epochs]) ps s"
    by (simp add: split epoch_loop_append e1)
  also have "\<dots> = epoch_loop step (alpha l) [Suc k..<nat epochs] ps' s'"
    using assms(3,4) by simp
  also have "\<dots> = (ps', s')" using assms(5) by (rule epoch_loop_stopped)
  finally have run: "Loop_run step l train_data valid_data epochs callbacks
      = (ps', cb_fire OnTrainingEnd None s')"
    by (simp add: Loop_run_def Let_def s0_def[symmetric] ps0_def[symmetric] a0)
  note before = epoch_loop_props[OF e1]
  have names: "map name ps = [''train'', ''valid'']"
    and data: "map dataset ps = [train_data, valid_data]"
    using before by (simp_all add: ps0_def Phase_init_def)
  then obtain p1 p2 where ps: "ps = [p1, p2]" by (cases ps; cases "tl ps") auto
  have during: "fired s' = fired s @ phase_events k ''train'' (length train_data)
                             @ phase_events k ''valid'' (length valid_data)"
    using phase_loop_props[OF assms(4)] names data by (simp add: ps)
  from before obtain evs where
    evs: "fired s = fired s0 @ evs" "\<forall>ev \<in> set evs. \<exists>e \<in> set [0..<k]. \<exists>n. snd ev = Some (e, n)"
    by blast
  have f0: "fired s0 = [(OnTrainingStart, None)]" by (simp add: s0_def cb_fire_fired)
  have "\<forall>ev \<in> set (fired (cb_fire OnTrainingEnd None s')). \<forall>e n. snd ev = Some (e, n) \<longrightarrow> e \<le> k"
    using evs f0 during by (auto simp: cb_fire_fired phase_events_def dest!: bspec)
  then have last: "\<forall>ev \<in> set (fired (snd (Loop_run step l train_data valid_data epochs callbacks))).
             \<forall>e n. snd ev = Some (e, n) \<longrightarrow> e \<le> k"
    by (simp only: run snd_conv)
  have counts: "map batch_num ps' = [batch_num (ps ! 0) + int (length train_data),
                               batch_num (ps ! 1) + int (length valid_data)]"
    using phase_loop_props[OF assms(4)] data by (simp add: ps)
  from run during counts last show ?thesis by blast
qed

theorem stop_checked_between_epochs_witness:
  "1 < nat 3
   \<and> \<not> stop (self (snd demo_before)) \<and> stop (self (snd demo_after))
   \<and> Loop_run demo_step demo_loop demo_data demo_data 3 [(stop_at 1, ())]
       = (fst demo_after, cb_fire OnTrainingEnd None (snd demo_after))
   \<and> fired (snd demo_after)
       = fired (snd demo_before) @ phase_events 1 ''train'' (length demo_data)
                                 @ phase_events 1 ''valid'' (length demo_data)
   \<and> (OnEpochStart, Some (2, ''train''))
       \<notin> set (fired (snd (Loop_run demo_step demo_loop demo_data demo_data 3
                                [(stop_at 1, ())])))
   \<and> (OnBatchStart, Some (2, ''train''))
       \<notin> set (fired (snd (Loop_run demo_step demo_loop demo_data demo_data 3
                                [(stop_at 1, ())])))"
proof -
  have k: "1 < nat 3" by simp
  have before: "epoch_loop demo_step (alpha demo_loop) [0..<1]
       [Phase_init ''train'' demo_data, Phase_init ''valid'' demo_data]
       (cb_fire OnTrainingStart None \<lparr> self = demo_loop, cb = [(stop_at 1, ())], fired = [] \<rparr>)
     = (fst demo_before, snd demo_before)"
    by (simp add: demo_before_def)
  have clear: "\<not> stop (self (snd demo_before))" by code_simp
  have after: "phase_loop demo_step (alpha demo_loop) 1 (fst demo_before) (snd demo_before)
     = (fst demo_after, snd demo_after)"
    by (simp add: demo_after_def)
  have set: "stop (self (snd demo_after))" by code_simp
  note epoch1 = stop_checked_between_epochs[OF k before clear after set]
  then have bound: "\<forall>ev \<in> set (fired (snd (Loop_run demo_step demo_loop demo_data demo_data 3
                                  [(stop_at 1, ())]))).
         \<forall>e n. snd ev = Some (e, n) \<longrightarrow> e \<le> 1"
    by blast
  have "ev \<notin> set (fired (snd (Loop_run demo_step demo_loop demo_data demo_data 3
                                [(stop_at 1, ())])))"
    if "snd ev = Some (2, n)" for ev :: "hook \<times> (nat \<times> string) option" and n
    using bound that by fastforce
  then have none: "(OnEpochStart, Some (2, ''train''))
       \<notin> set (fired (snd (Loop_run demo_step demo_loop demo_data demo_data 3
                                [(stop_at 1, ())])))"
    "(OnBatchStart, Some (2, ''train''))
       \<notin> set (fired (snd (Loop_run demo_step demo_loop demo_data demo_data 3
                                [(stop_at 1, ())])))"
    by simp_all
  from epoch1 k clear set none show ?thesis by blast
qed

text \<open>
  C10. A new loop has the stop flag clear. A run started with the flag set fires the
  training-start and the training-end event and nothing else, runs no batch (the
  phases keep their initial counters, the stepper is untouched) and leaves the flag
  set, so the same holds for every later run on that loop.
\<close>

theorem stop_flag_never_reset:
  assumes "stop l"
  shows "\<not> stop (Loop_init stp0 a0)
       \<and> (\<exists>s. Loop_run step l train_data valid_data epochs callbacks
              = ([Phase_init ''train'' train_data, Phase_init ''valid'' valid_data], s)
           \<and> fired s = [(OnTrainingStart, None), (OnTrainingEnd, None)]
           \<and> stop (self s) \<and> stepper (self s) = stepper l)"
proof -
  define s0 where "s0 = cb_fire OnTrainingStart None \<lparr> self = l, cb = callbacks, fired = [] \<rparr>"
  have st: "stop (self s0)" using assms by (simp add: s0_def cb_fire_stop)
  have "Loop_run step l train_data valid_data epochs callbacks
      = ([Phase_init ''train'' train_data, Phase_init ''valid'' valid_data],
         cb_fire OnTrainingEnd None s0)"
    by (simp add: Loop_run_def Let_def s0_def[symmetric] epoch_loop_stopped[OF st])
  moreover have "fired (cb_fire OnTrainingEnd None s0) = [(OnTrainingStart, None), (OnTrainingEnd, None)]"
    by (simp add: cb_fire_fired s0_def)
  moreover have "stop (self (cb_fire OnTrainingEnd None s0))" using st by (rule cb_fire_stop)
  moreover have "stepper (self (cb_fire OnTrainingEnd None s0)) = stepper l"
    by (simp add: cb_fire_stepper s0_def)
  moreover have "\<not> stop (Loop_init stp0 a0)" by (simp add: Loop_init_def)
  ultimately show ?thesis by blast
qed

theorem stop_flag_never_reset_witness:
  "stop (self (snd (Loop_run demo_step demo_loop demo_data demo_data 3 [(stop_at 1, ())])))
   \<and> (\<exists>s. Loop_run demo_step
              (self (snd (Loop_run demo_step demo_loop demo_data demo_data 3 [(stop_at 1, ())])))
              demo_data demo_data 3 [(stop_at 1, ())]
            = ([Phase_init ''train'' demo_data, Phase_init ''valid'' demo_data], s)
          \<and> fired s = [(OnTrainingStart, None), (OnTrainingEnd, None)]
          \<and> stop (self s))"
proof -
  have first: "stop (self (snd (Loop_run demo_step demo_loop demo_data demo_data 3
                                  [(stop_at 1, ())])))"
    by code_simp
  from stop_flag_never_reset[OF first, of 0 None demo_step demo_data demo_data 3 "[(stop_at 1, ())]"]
    first
  show ?thesis by blast
qed

text \<open>
  C8. The claim as stated, "the running loss after 100 updates equals
  \<open>1 - 0.98^100\<close>", fails: the loop computes in doubles. With the default
  \<open>alpha\<close>, one epoch over 100 training batches of loss 1.0 leaves the training
  phase at the double \<open>3906334244860847 / 2^52\<close> (0.8673804441052473), which is not
  the number \<open>1 - 0.98^100\<close>.
\<close>

theorem running_loss_not_exact_counterexample:
  "avg_loss (hd (fst (Loop_run demo_step (Loop_init 0 None) (replicate 100 (0, 0)) [] 1
                        [(watcher, 0)])))
     = Some (3906334244860847 / 4503599627370496)
   \<and> (3906334244860847 / 4503599627370496 :: rat) \<noteq> 1 - (98 / 100) ^ 100"
proof -
  have len: "length (replicate 100 (0 :: nat, 0 :: nat)) = 100" by simp
  from unit_loss_scenario[OF never_stops_watcher[of 0] demo_step_unit len,
      where stp=0 and valid_data="[]"]
  have "avg_loss (hd (fst (Loop_run demo_step (Loop_init 0 None) (replicate 100 (0, 0)) [] 1
                        [(watcher, 0)])))
     = Some (3906334244860847 / 4503599627370496)"
    by auto
  moreover have "(3906334244860847 / 4503599627370496 :: rat) \<noteq> 1 - (98 / 100) ^ 100"
    by (simp add: power_divide)
  ultimately show ?thesis by simp
qed

text \<open>
  C8, amended. \<open>alpha\<close> defaults to the double 0.98. One batch takes the running
  loss \<open>r\<close> of its phase to \<open>r * alpha + loss * (1 - alpha)\<close>, every operation
  rounded to a double. In a run that no observer stops, started with the stop flag
  clear, the running losses of the training and of the validation phase and the stepper
  are what \<open>epochs\<close> rounds of this update over the losses of the stepper give,
  training batches first, from 0.0. So with the default \<open>alpha\<close> and a stepper that
  reports the loss 1.0 for every batch, one epoch over 100 training batches ends with
  the training phase at \<open>3906334244860847 / 2^52\<close>, which exceeds 0.85, and with the
  validation phase at the same recurrence over its own batches.
\<close>

theorem running_loss_is_ema:
  "alpha (Loop_init stp None) = fl (98 / 100)
   \<and> fl (98 / 100) = Some (2206763817411543 / 2251799813685248)
   \<and> (\<forall>p' s'. batch_loop step a e tr [(x, y)] p s = (p', s') \<longrightarrow>
         avg_loss p' = fadd (fmul (avg_loss p) a)
                          (fmul (fst (step x y tr (stepper (self s)))) (fsub (Some 1) a)))
   \<and> (never_stops callbacks \<and> \<not> stop l \<longrightarrow>
         (\<exists>pt pv s'. Loop_run step l train_data valid_data n callbacks = ([pt, pv], s')
            \<and> name pt = ''train'' \<and> name pv = ''valid''
            \<and> (avg_loss pt, avg_loss pv, stepper (self s'))
                = (epoch_ref step (alpha l) train_data valid_data ^^ nat n)
                    (Some 0, Some 0, stepper l)))
   \<and> (never_stops callbacks \<and> (\<forall>x y t st. fst (step x y t st) = Some 1)
        \<and> length train_data = 100 \<longrightarrow>
         (\<exists>pt pv s'. Loop_run step (Loop_init stp None) train_data valid_data 1 callbacks
               = ([pt, pv], s')
            \<and> name pt = ''train'' \<and> name pv = ''valid''
            \<and> avg_loss pt = Some (3906334244860847 / 4503599627370496)
            \<and> avg_loss pv = unit_loss_run (length valid_data)))
   \<and> (85 / 100 :: rat) < 3906334244860847 / 4503599627370496"
proof (intro conjI allI impI)
  show "alpha (Loop_init stp None) = fl (98 / 100)" by (simp add: Loop_init_def)
next
  show "fl (98 / 100) = Some (2206763817411543 / 2251799813685248)" by (rule alpha_val)
next
  fix p' s' assume "batch_loop step a e tr [(x, y)] p s = (p', s')"
  then show "avg_loss p' = fadd (fmul (avg_loss p) a)
                          (fmul (fst (step x y tr (stepper (self s)))) (fsub (Some 1) a))"
    by (rule batch_loop_one)
next
  assume "never_stops callbacks \<and> \<not> stop l"
  then have h: "never_stops callbacks" "\<not> stop l" by simp_all
  show "\<exists>pt pv s'. Loop_run step l train_data valid_data n callbacks = ([pt, pv], s')
            \<and> name pt = ''train'' \<and> name pv = ''valid''
            \<and> (avg_loss pt, avg_loss pv, stepper (self s'))
                = (epoch_ref step (alpha l) train_data valid_data ^^ nat n)
                    (Some 0, Some 0, stepper l)"
    by (rule Loop_run_losses[OF h])
next
  assume "never_stops callbacks \<and> (\<forall>x y t st. fst (step x y t st) = Some 1)
        \<and> length train_data = 100"
  then have h: "never_stops callbacks" "\<forall>x y t st. fst (step x y t st) = Some 1"
    "length train_data = 100" by simp_all
  show "\<exists>pt pv s'. Loop_run step (Loop_init stp None) train_data valid_data 1 callbacks
               = ([pt, pv], s')
            \<and> name pt = ''train'' \<and> name pv = ''valid''
            \<and> avg_loss pt = Some (3906334244860847 / 4503599627370496)
            \<and> avg_loss pv = unit_loss_run (length valid_data)"
    by (rule unit_loss_scenario[OF h])
next
  show "(85 / 100 :: rat) < 3906334244860847 / 4503599627370496" by simp
qed

theorem running_loss_is_ema_witness:
  "never_stops [(watcher, 0)] \<and> \<not> stop (Loop_init (0 :: nat) None)
   \<and> (\<forall>x y t st. fst (demo_step x y t st) = Some 1)
   \<and> length (replicate 100 (0 :: nat, 0 :: nat)) = 100
   \<and> (\<exists>pt pv s'. Loop_run demo_step (Loop_init 0 None) (replicate 100 (0, 0)) [] 1
                     [(watcher, 0)] = ([pt, pv], s')
         \<and> name pt = ''train'' \<and> name pv = ''valid''
         \<and> avg_loss pt = Some (3906334244860847 / 4503599627370496)
         \<and> avg_loss pv = unit_loss_run (length ([] :: (nat \<times> nat) list)))"
proof -
  have h: "never_stops [(watcher, 0)] \<and> (\<forall>x y t st. fst (demo_step x y t st) = Some 1)
        \<and> length (replicate 100 (0 :: nat, 0 :: nat)) = 100"
    using never_stops_watcher[of 0] demo_step_unit by simp
  have ns: "\<not> stop (Loop_init (0 :: nat) None)" by (simp add: Loop_init_def)
  from running_loss_is_ema[where stp=0 and step=demo_step and callbacks="[(watcher, 0)]"
        and train_data="replicate 100 (0, 0)" and valid_data="[]"] h
  have "\<exists>pt pv s'. Loop_run demo_step (Loop_init 0 None) (replicate 100 (0, 0)) [] 1
                     [(watcher, 0)] = ([pt, pv], s')
         \<and> name pt = ''train'' \<and> name pv = ''valid''
         \<and> avg_loss pt = Some (3906334244860847 / 4503599627370496)
         \<and> avg_loss pv = unit_loss_run (length ([] :: (nat \<times> nat) list))"
    by blast
  with h ns show ?thesis by blast
qed




end
